theory Spec2Isabelle
  imports Complex_Main
begin

section \<open>Strings and Python string primitives\<close>

text \<open>
  A Python \<open>str\<close> is modelled as a \<open>string\<close> (a list of characters with code points
  below 256, which covers every phone token and every pattern of \<open>piebot.py\<close>).  The
  backslash that occurs in two X-SAMPA tokens (the rhotic and the reduced laryngeal) is
  written \<open>CHR 0x5C\<close>, the line feed \<open>CHR 0x0A\<close>.
\<close>

abbreviation bsl :: char where
  "bsl \<equiv> CHR 0x5C"

abbreviation newline :: char where
  "newline \<equiv> CHR 0x0A"

datatype py_error = IndexError | KeyError

text \<open>\<open>sep.join(xs)\<close>\<close>

fun join :: "string \<Rightarrow> string list \<Rightarrow> string" where
  "join sep [] = []"
| "join sep [x] = x"
| "join sep (x # y # ys) = x @ sep @ join sep (y # ys)"

text \<open>
  The characters that \<open>str.split()\<close> (no argument) treats as white space, among the code
  points below 256: tab, line feed, vertical tab, form feed, carriage return, the four
  separators \<open>0x1C\<close> to \<open>0x1F\<close>, space, \<open>0x85\<close> and \<open>0xA0\<close>.
\<close>

definition is_space :: "char \<Rightarrow> bool" where
  "is_space c \<longleftrightarrow> c \<in> set [CHR 0x09, CHR 0x0A, CHR 0x0B, CHR 0x0C, CHR 0x0D,
     CHR 0x1C, CHR 0x1D, CHR 0x1E, CHR 0x1F, CHR 0x20, CHR 0x85, CHR 0xA0]"

text \<open>
  \<open>s.split()\<close>: the maximal runs of non-space characters, in order.  \<open>split_acc w s\<close>
  scans \<open>s\<close> with the word \<open>w\<close> collected so far.
\<close>

fun split_acc :: "string \<Rightarrow> string \<Rightarrow> string list" where
  "split_acc w [] = (if w = [] then [] else [w])"
| "split_acc w (c # cs) =
     (if is_space c then (if w = [] then split_acc [] cs else w # split_acc [] cs)
      else split_acc (w @ [c]) cs)"

definition split :: "string \<Rightarrow> string list" where
  "split s = split_acc [] s"

text \<open>
  \<open>s.replace(old, new)\<close> for a non-empty \<open>old\<close>: the occurrences of \<open>old\<close> are replaced
  from left to right, without overlap.
\<close>

fun replace :: "string \<Rightarrow> string \<Rightarrow> string \<Rightarrow> string" where
  "replace old new [] = []"
| "replace old new (c # cs) =
     (if old \<noteq> [] \<and> take (length old) (c # cs) = old
      then new @ replace old new (drop (length old) (c # cs))
      else c # replace old new cs)"

text \<open>\<open>sub in s\<close> for strings\<close>

fun contains :: "string \<Rightarrow> string \<Rightarrow> bool" where
  "contains sub [] = (sub = [])"
| "contains sub (c # cs) = (take (length sub) (c # cs) = sub \<or> contains sub cs)"

text \<open>\<open>s.strip(':')\<close>\<close>

definition strip_colon :: "string \<Rightarrow> string" where
  "strip_colon s =
     rev (dropWhile (\<lambda>c. c = CHR '':'') (rev (dropWhile (\<lambda>c. c = CHR '':'') s)))"

section \<open>The regular expressions of Python's \<open>re\<close> that the program uses\<close>

text \<open>
  The patterns of \<open>piebot.py\<close> use literal characters, \<open>.\<close> (any character but a line
  feed), character sets \<open>[...]\<close> and \<open>[^...]\<close>, the anchors \<open>^\<close> and \<open>$\<close>, grouping,
  alternation, \<open>*\<close> and \<open>+\<close>.  A pattern is a value of \<open>regex\<close>; \<open>r+\<close> is
  \<open>Seq r (Star r)\<close>.
\<close>

datatype regex =
    Eps
  | Lit char
  | Dot
  | Cls "char list"
  | NCls "char list"
  | Bol
  | Eol
  | Seq regex regex
  | Alt regex regex
  | Star regex

text \<open>
  A position in the searched text: whether it is the start of the text, and the text
  that remains.
\<close>

type_synonym pos = "bool \<times> string"

text \<open>
  \<open>star_from n f p\<close>: the positions reached from \<open>p\<close> by at most \<open>n\<close> rounds of \<open>f\<close>,
  each of which consumes at least one character.  A round that consumes nothing reaches
  no new position, and \<open>n\<close> is the length of the remaining text where it is used.
\<close>

fun star_from :: "nat \<Rightarrow> (pos \<Rightarrow> pos list) \<Rightarrow> pos \<Rightarrow> pos list" where
  "star_from 0 f p = [p]"
| "star_from (Suc n) f p =
     p # concat (map (star_from n f) (filter (\<lambda>q. length (snd q) < length (snd p)) (f p)))"

text \<open>
  \<open>rmatch r p\<close>: the positions at which a match of \<open>r\<close> that starts at \<open>p\<close> can end.
  \<open>$\<close> (without \<open>re.MULTILINE\<close>) holds at the end of the text and just before a line
  feed that ends the text.
\<close>

primrec rmatch :: "regex \<Rightarrow> pos \<Rightarrow> pos list" where
  "rmatch Eps p = [p]"
| "rmatch (Lit c) p =
     (case snd p of [] \<Rightarrow> [] | x # xs \<Rightarrow> if x = c then [(False, xs)] else [])"
| "rmatch Dot p =
     (case snd p of [] \<Rightarrow> [] | x # xs \<Rightarrow> if x \<noteq> newline then [(False, xs)] else [])"
| "rmatch (Cls cs) p =
     (case snd p of [] \<Rightarrow> [] | x # xs \<Rightarrow> if x \<in> set cs then [(False, xs)] else [])"
| "rmatch (NCls cs) p =
     (case snd p of [] \<Rightarrow> [] | x # xs \<Rightarrow> if x \<notin> set cs then [(False, xs)] else [])"
| "rmatch Bol p = (if fst p then [p] else [])"
| "rmatch Eol p = (if snd p = [] \<or> snd p = [newline] then [p] else [])"
| "rmatch (Seq r1 r2) p = concat (map (rmatch r2) (rmatch r1 p))"
| "rmatch (Alt r1 r2) p = rmatch r1 p @ rmatch r2 p"
| "rmatch (Star r) p = star_from (length (snd p)) (rmatch r) p"

fun later_pos :: "string \<Rightarrow> pos list" where
  "later_pos [] = []"
| "later_pos (x # xs) = (False, xs) # later_pos xs"

text \<open>\<open>pattern.search(s)\<close> as a truth value: a match starts at some position of \<open>s\<close>.\<close>

definition search :: "regex \<Rightarrow> string \<Rightarrow> bool" where
  "search r s = list_ex (\<lambda>p. rmatch r p \<noteq> []) ((True, s) # later_pos s)"

fun seqs :: "regex list \<Rightarrow> regex" where
  "seqs [] = Eps"
| "seqs [r] = r"
| "seqs (r # rs) = Seq r (seqs rs)"

fun alts :: "regex list \<Rightarrow> regex" where
  "alts [] = Eps"
| "alts [r] = r"
| "alts (r # rs) = Alt r (alts rs)"

definition str :: "string \<Rightarrow> regex" where
  "str s = seqs (map Lit s)"

text \<open>\<open>sorted(xs, key=len, reverse=True)\<close>: Python reverses, sorts stably, reverses.\<close>

definition sorted_len_rev :: "string list \<Rightarrow> string list" where
  "sorted_len_rev xs = rev (sort_key length (rev xs))"

section \<open>Pronunciation mapping sets\<close>

definition voiceless :: "string list" where
  "voiceless = [''p'', ''t'', ''k'', ''f'', ''T'', ''x'', ''kw'']"

definition vowels :: "string list" where
  "vowels = [''a'', ''e'', ''i'', ''o'', ''u'', ''a:'', ''e:'', ''i:'', ''o:'', ''u:'',
     ''y'', ''y:'', ''oe'', ''oe:'',
     ''E'', ''E:'', ''A'', ''A:'', ''O'', ''O:'', ''ae'', ''ae:'',
     ''eI'', ''ai'', ''oi'', ''eu'', ''au'', ''ou'',
     ''eI:'', ''ai:'', ''oi:'', ''eu:'', ''au:'', ''ou:'']"

text \<open>\<open>'(' + '|'.join(sorted(voiceless, key=len, reverse=True)) + ')'\<close>\<close>

definition VOICELESS_PATTERN :: regex where
  "VOICELESS_PATTERN = alts (map str (sorted_len_rev voiceless))"

text \<open>
  \<open>'[^(' + ')|('.join(sorted(voiceless, key=len, reverse=True)) + ')]'\<close>: one negated
  character set, whose members are the characters of that text.
\<close>

definition VOICED_PATTERN :: regex where
  "VOICED_PATTERN = NCls (''('' @ join '')|('' (sorted_len_rev voiceless) @ '')'')"

definition VOWEL_PATTERN :: regex where
  "VOWEL_PATTERN = alts (map str (sorted_len_rev vowels))"

definition CONSONANT_PATTERN :: regex where
  "CONSONANT_PATTERN = NCls (''('' @ join '')|('' (sorted_len_rev vowels) @ '')'')"

text \<open>The pattern \<open>.*\<close>\<close>

definition dot_star :: regex where
  "dot_star = Star Dot"

section \<open>The sound change engine\<close>

text \<open>
  \<open>sound_change(orig_pron, phone_maps, prior_context, posterior_context)\<close>.  The loop
  runs over \<open>enumerate(orig_pron)\<close> and appends to \<open>new_pron\<close>; the dictionary is a map.
\<close>

fun sc_loop :: "string list \<Rightarrow> (string \<rightharpoonup> string) \<Rightarrow> regex \<Rightarrow> regex \<Rightarrow>
    (nat \<times> string) list \<Rightarrow> string list \<Rightarrow> string list" where
  "sc_loop orig_pron phone_maps prior_pattern posterior_pattern [] new_pron = new_pron"
| "sc_loop orig_pron phone_maps prior_pattern posterior_pattern ((count, u) # rest) new_pron =
     (case phone_maps (orig_pron ! count) of
        None \<Rightarrow> sc_loop orig_pron phone_maps prior_pattern posterior_pattern rest
                  (new_pron @ [orig_pron ! count])
      | Some v \<Rightarrow>
          (let prior_phones = join '' '' (take count orig_pron);
               posterior_phones = join '' '' (drop (count + 1) orig_pron)
           in if search prior_pattern prior_phones \<and> search posterior_pattern posterior_phones
              then sc_loop orig_pron phone_maps prior_pattern posterior_pattern rest
                     (new_pron @ [v])
              else sc_loop orig_pron phone_maps prior_pattern posterior_pattern rest
                     (new_pron @ [orig_pron ! count])))"

definition sound_change :: "string list \<Rightarrow> (string \<rightharpoonup> string) \<Rightarrow> regex \<Rightarrow> regex \<Rightarrow>
    string list" where
  "sound_change orig_pron phone_maps prior_context posterior_context =
     filter (\<lambda>c. c \<noteq> [])
       (sc_loop orig_pron phone_maps prior_context posterior_context
          (enumerate 0 orig_pron) [])"

text \<open>What the loop appends at position \<open>i\<close>, as the specification words it.\<close>

definition emitted :: "string list \<Rightarrow> (string \<rightharpoonup> string) \<Rightarrow> regex \<Rightarrow> regex \<Rightarrow> nat \<Rightarrow> string" where
  "emitted sequence ruleMap priorContext posteriorContext i =
     (if sequence ! i \<in> dom ruleMap
         \<and> search priorContext (join '' '' (take i sequence))
         \<and> search posteriorContext (join '' '' (drop (Suc i) sequence))
      then the (ruleMap (sequence ! i)) else sequence ! i)"

section \<open>The partition enumerator\<close>

text \<open>
  \<open>pron_breaker\<close> is a generator; the model returns the list of what it yields, in
  order.
\<close>

function pron_breaker :: "'a list \<Rightarrow> 'a list list list" where
  "pron_breaker pron =
     (if length pron = 1 then [[pron]] else []) @
     concat (map (\<lambda>i. [take i pron, drop i pron] #
                       map (\<lambda>split. take i pron # split) (pron_breaker (drop i pron)))
               [1 ..< length pron])"
  by pat_completeness auto
termination
  by (relation "measure length") auto

declare pron_breaker.simps [simp del]

section \<open>The era stages\<close>

text \<open>The rhotic token: \<open>r\<close> followed by a backslash.\<close>

abbreviation r_bsl :: string where
  "r_bsl \<equiv> [CHR ''r'', bsl]"

text \<open>The pattern \<open>(i|i:|j)\<close>\<close>

definition i_or_j :: regex where
  "i_or_j = alts [str ''i'', str ''i:'', str ''j'']"

subsection \<open>Late PIE: laryngeal deletion\<close>

definition dict_h_deletion :: "string \<rightharpoonup> string" where
  "dict_h_deletion = map_of [(''h1'', ''''), (''h2'', ''''), (''h3'', ''''), ([bsl, CHR ''H''], '''')]"

definition late_pie_changes :: "string list \<Rightarrow> string list" where
  "late_pie_changes pron = filter (\<lambda>phone. dict_h_deletion phone = None) pron"

subsection \<open>Grimm's Law\<close>

definition dict_grimm1 :: "string \<rightharpoonup> string" where
  "dict_grimm1 = map_of [(''p'', ''f''), (''t'', ''T''), (''k_>'', ''x''), (''k'', ''x''), (''kw'', ''xw'')]"

definition dict_grimm2 :: "string \<rightharpoonup> string" where
  "dict_grimm2 = map_of [(''b'', ''p''), (''d'', ''t''), (''g_>'', ''k''), (''g'', ''k''), (''gw'', ''kw'')]"

definition dict_grimm3 :: "string \<rightharpoonup> string" where
  "dict_grimm3 = map_of [(''bh'', ''v''), (''dh'', ''D''), (''g_>h'', ''G''), (''gh'', ''G''),
     (''gwh'', ''Gw'')]"

text \<open>The pattern \<open>(.*[^s]|^$)\<close>\<close>

definition grimm1_prior :: regex where
  "grimm1_prior = Alt (Seq (Star Dot) (NCls ''s'')) (Seq Bol Eol)"

definition grimm_pass1 :: "string list \<Rightarrow> string list" where
  "grimm_pass1 pron = sound_change pron dict_grimm1 grimm1_prior dot_star"

definition grimm_changes :: "string list \<Rightarrow> string list" where
  "grimm_changes pron =
     (let grimm_pron = grimm_pass1 pron;
          grimm_pron = sound_change grimm_pron dict_grimm2 dot_star dot_star;
          grimm_pron = sound_change grimm_pron dict_grimm3 dot_star dot_star
      in grimm_pron)"

subsection \<open>Verner's Law\<close>

definition verner_map :: "string \<rightharpoonup> string" where
  "verner_map = map_of [(''s'', ''z''), (''f'', ''v''), (''x'', ''Z''), (''xw'', ''Zw'')]"

text \<open>The pattern \<open>'.*' + VOWEL_PATTERN + '.* .*'\<close>\<close>

definition verner_prior :: regex where
  "verner_prior = seqs [Star Dot, VOWEL_PATTERN, Star Dot, Lit CHR '' '', Star Dot]"

definition verner_changes :: "string list \<Rightarrow> string list" where
  "verner_changes grimm_pron = sound_change grimm_pron verner_map verner_prior dot_star"

subsection \<open>Proto-Germanic\<close>

text \<open>The pattern \<open>'^(n|m) ' + CONSONANT_PATTERN\<close>\<close>

definition nasal_cons :: regex where
  "nasal_cons = seqs [Bol, Alt (Lit CHR ''n'') (Lit CHR ''m''), Lit CHR '' '', CONSONANT_PATTERN]"

definition proto_germanic_changes :: "string list \<Rightarrow> string list" where
  "proto_germanic_changes pron =
     (let pg_pron = sound_change pron (map_of [(''o'', ''a'')]) dot_star dot_star;
          pg_pron = sound_change pg_pron (map_of [(''u'', ''o'')]) dot_star nasal_cons;
          pg_pron = sound_change pg_pron (map_of [(''e'', ''i'')]) dot_star nasal_cons;
          pg_pron = sound_change pg_pron (map_of [(''e'', ''i'')]) dot_star
                      (seqs [Star Dot, i_or_j]);
          pg_pron = sound_change pg_pron (map_of [(''a:'', ''o:'')]) dot_star dot_star;
          pg_pron = split (replace ''a n x'' ''a:'' (join '' '' pg_pron));
          pg_pron = sound_change pg_pron (map_of [(''i'', '''')])
                      (seqs [str ''e:'', Eol]) dot_star;
          pg_pron = sound_change pg_pron
                      (map_of [(''eI:'', ''eI''), (''ai:'', ''ai''), (''oi:'', ''oi''),
                               (''eu:'', ''eu''), (''au:'', ''au''), (''ou:'', ''ou'')])
                      dot_star dot_star;
          pg_pron = sound_change pg_pron
                      (map_of [(''oi'', ''ai''), (''ou'', ''au''), (''eI'', ''i:'')])
                      dot_star dot_star;
          pg_pron = sound_change pg_pron (map_of [(''eu'', ''iu'')]) dot_star
                      (seqs [Star Dot, i_or_j])
      in pg_pron)"

subsection \<open>Old English\<close>

definition old_english_changes :: "string list \<Rightarrow> string list" where
  "old_english_changes pron =
     (let oe_pron = sound_change pron (map_of [(''Gw'', ''G'')]) dot_star
                      (seqs [Bol, Lit CHR ''u'']);
          oe_pron = sound_change oe_pron (map_of [(''Gw'', ''w'')]) dot_star dot_star;
          oe_pron = sound_change oe_pron (map_of [(''G'', ''j'')])
                      (seqs [Star Dot, i_or_j, Eol]) dot_star;
          oe_pron = sound_change oe_pron (map_of [(''G'', ''j'')]) dot_star
                      (seqs [Bol, i_or_j, Star Dot]);
          oe_pron = sound_change oe_pron (map_of [(''G'', ''g'')]) (seqs [Bol, Eol]) dot_star;
          oe_pron = sound_change oe_pron (map_of [(''G'', ''g'')])
                      (seqs [Star Dot, Lit CHR ''n'', Eol]) dot_star;
          oe_pron = sound_change oe_pron (map_of [(''G'', ''x'')]) dot_star (seqs [Bol, Eol]);
          oe_pron = sound_change oe_pron (map_of [(''v'', ''b'')]) (seqs [Bol, Eol]) dot_star;
          oe_pron = sound_change oe_pron (map_of [(''v'', ''f'')])
                      (seqs [Star Dot, VOICELESS_PATTERN, Eol]) (seqs [Bol, Eol]);
          oe_pron = sound_change oe_pron (map_of [(''v'', ''f'')])
                      (seqs [Star Dot, VOICELESS_PATTERN, Eol])
                      (seqs [Bol, VOICELESS_PATTERN, Star Dot]);
          oe_pron = sound_change oe_pron (map_of [(''D'', ''d'')]) dot_star dot_star;
          oe_pron = sound_change oe_pron (map_of [(''x'', ''h'')]) dot_star
                      (seqs [Bol, VOICED_PATTERN]);
          oe_pron = sound_change oe_pron (map_of [(''h'', '''')])
                      (seqs [VOWEL_PATTERN, Eol]) (seqs [Bol, VOWEL_PATTERN]);
          oe_pron = sound_change oe_pron (map_of [(''z'', r_bsl)])
                      (seqs [VOWEL_PATTERN, Eol]) dot_star;
          oe_pron = sound_change oe_pron (map_of [(''z'', '''')])
                      (seqs [CONSONANT_PATTERN, Eol]) (seqs [Bol, Eol]);
          oe_pron = sound_change oe_pron (map_of [(''a'', ''ae'')]) dot_star
                      (seqs [Bol, NCls ''naou'', Star (NCls ''naou''), Eol]);
          oe_pron = sound_change oe_pron (map_of [(''a:'', ''o:'')]) dot_star dot_star;
          oe_pron = sound_change oe_pron
                      (map_of [(''ai'', ''a:''), (''au'', ''ea''), (''eu'', ''eo:''),
                               (''iu'', ''eo:'')])
                      dot_star dot_star
      in oe_pron)"

subsection \<open>Late Old English\<close>

definition late_old_english_changes :: "string list \<Rightarrow> string list" where
  "late_old_english_changes pron =
     (let loe_pron = sound_change pron
                       (map_of [(''a'', ''e''), (''ae'', ''e''), (''o'', ''e''), (''u'', ''y''),
                                (''a:'', ''ae:''), (''o:'', ''e:''), (''u:'', ''y:''),
                                (''ea'', ''ie''), (''eo'', ''ie''), (''io'', ''ie'')])
                       dot_star
                       (seqs [Bol, CONSONANT_PATTERN, Star Dot, Cls ''i|i:|j'', Star Dot]);
          loe_pron = sound_change loe_pron (map_of [(''e'', ''eo''), (''i'', ''io'')]) dot_star
                       (seqs [Bol, Cls ''vlr'', Lit CHR '' '', Cls ''aou'']);
          loe_pron = sound_change loe_pron
                       (map_of [(''i'', ''io''), (''e'', ''eo''), (''ae'', ''ea''),
                                (''a'', ''ea''), (''i:'', ''eo''), (''io:'', ''eo:'')])
                       dot_star
                       (seqs [Bol, Cls ''rlhx'', CONSONANT_PATTERN])
      in loe_pron)"

subsection \<open>Indexing that can raise\<close>

text \<open>
  \<open>xs[i]\<close> on a list or a string: a negative index counts from the end, an index out of
  range raises \<open>IndexError\<close>.
\<close>

definition py_index :: "'a list \<Rightarrow> int \<Rightarrow> py_error + 'a" where
  "py_index xs i =
     (if 0 \<le> i \<and> i < int (length xs) then Inr (xs ! nat i)
      else if i < 0 \<and> - int (length xs) \<le> i then Inr (xs ! nat (int (length xs) + i))
      else Inl IndexError)"

definition ebind :: "py_error + 'a \<Rightarrow> ('a \<Rightarrow> py_error + 'b) \<Rightarrow> py_error + 'b" where
  "ebind m f = (case m of Inl e \<Rightarrow> Inl e | Inr x \<Rightarrow> f x)"

text \<open>\<open>a and b\<close>, where \<open>b\<close> is evaluated only when \<open>a\<close> is true.\<close>

definition and_also :: "py_error + bool \<Rightarrow> py_error + bool \<Rightarrow> py_error + bool" where
  "and_also a b = (case a of Inl e \<Rightarrow> Inl e | Inr x \<Rightarrow> if x then b else Inr False)"

text \<open>
  A loop \<open>for count, phone in enumerate(pron)\<close> that appends one phone to \<open>new_phone\<close>
  in each round.
\<close>

fun enum_loop :: "(nat \<Rightarrow> string \<Rightarrow> py_error + string) \<Rightarrow> (nat \<times> string) list \<Rightarrow>
    string list \<Rightarrow> py_error + string list" where
  "enum_loop step [] new_phone = Inr new_phone"
| "enum_loop step ((count, phone) # rest) new_phone =
     (case step count phone of
        Inl e \<Rightarrow> Inl e
      | Inr p \<Rightarrow> enum_loop step rest (new_phone @ [p]))"

subsection \<open>Middle English\<close>

definition mvl_step :: "string list \<Rightarrow> nat \<Rightarrow> string \<Rightarrow> py_error + string" where
  "mvl_step pron count phone =
     (if int count < int (length pron) - 2 then
        ebind
          (and_also (Inr (phone \<in> set vowels))
            (and_also
               (ebind (py_index pron (int count + 1))
                  (\<lambda>p. Inr (p \<in> set [r_bsl, ''l'', ''m'', ''n''])))
               (and_also
                  (ebind (py_index pron (int count + 2))
                     (\<lambda>p. Inr (p \<in> set [''b'', ''d'', ''g''])))
                  (ebind (py_index phone (- 1)) (\<lambda>c. Inr (c \<noteq> CHR '':''))))))
          (\<lambda>cond. if cond then ebind (py_index pron (int count)) (\<lambda>p. Inr (p @ '':''))
                   else Inr phone)
      else Inr phone)"

definition me_vowel_lengthening :: "string list \<Rightarrow> py_error + string list" where
  "me_vowel_lengthening pron = enum_loop (mvl_step pron) (enumerate 0 pron) []"

definition mvs_step :: "string list \<Rightarrow> nat \<Rightarrow> string \<Rightarrow> py_error + string" where
  "mvs_step pron count phone =
     (if int count < int (length pron) - 2 then
        ebind
          (and_also (Inr (phone \<in> set vowels))
            (and_also
               (ebind (py_index pron (int count + 1)) (\<lambda>p. Inr (p \<in> set [''s'', ''f''])))
               (and_also
                  (ebind (py_index pron (int count + 2)) (\<lambda>p. Inr (p = ''t'')))
                  (ebind (py_index pron (int count))
                     (\<lambda>p. ebind (py_index p (- 1)) (\<lambda>c. Inr (c = CHR '':'')))))))
          (\<lambda>cond. if cond then ebind (py_index pron (int count)) (\<lambda>p. Inr (butlast p))
                   else Inr phone)
      else Inr phone)"

definition me_vowel_shortening :: "string list \<Rightarrow> py_error + string list" where
  "me_vowel_shortening pron = enum_loop (mvs_step pron) (enumerate 0 pron) []"

text \<open>The pattern \<open>'.*' + VOWEL_PATTERN + '.* .*' + VOWEL_PATTERN\<close>\<close>

definition two_syll_pattern :: regex where
  "two_syll_pattern =
     seqs [Star Dot, VOWEL_PATTERN, Star Dot, Lit CHR '' '', Star Dot, VOWEL_PATTERN]"

fun msl_loop :: "string list \<Rightarrow> bool \<Rightarrow> string list \<Rightarrow> py_error + string list" where
  "msl_loop [] found_first_vowel new_phone = Inr new_phone"
| "msl_loop (phone # rest) found_first_vowel new_phone =
     (if phone \<in> set vowels \<and> \<not> found_first_vowel then
        (case py_index phone (- 1) of
           Inl e \<Rightarrow> Inl e
         | Inr c \<Rightarrow>
             if c \<noteq> CHR '':'' then msl_loop rest True (new_phone @ [phone @ '':''])
             else msl_loop rest True (new_phone @ [phone]))
      else msl_loop rest found_first_vowel (new_phone @ [phone]))"

definition me_second_lengthening :: "string list \<Rightarrow> py_error + string list" where
  "me_second_lengthening pron =
     (if search two_syll_pattern (join '' '' pron) then
        ebind (py_index pron (- 1))
          (\<lambda>l. if l \<in> set vowels
                then ebind (msl_loop pron False []) (\<lambda>new_phone. Inr (butlast new_phone))
                else Inr pron)
      else Inr pron)"

definition dip_i :: "string \<rightharpoonup> string" where
  "dip_i = map_of [(''ae'', ''ai''), (''e'', ''eI''), (''i'', ''i''), (''o'', ''oi''), (''u'', ''ui'')]"

definition dip_u :: "string \<rightharpoonup> string" where
  "dip_u = map_of [(''o'', ''ou''), (''i'', ''iu''), (''a'', ''au''), (''e'', ''eu''), (''u'', ''u'')]"

text \<open>
  The loop \<open>while phone in range(len(pron))\<close> of \<open>me_diphthongization\<close>; \<open>phone\<close> is the
  index, which starts at 0 and grows by one or two in each round.
\<close>

function me_dip_loop :: "string list \<Rightarrow> nat \<Rightarrow> string list \<Rightarrow> py_error + string list" where
  "me_dip_loop pron phone new_phone =
     (if phone < length pron then
        (if int phone = int (length pron) - 1 then
           (case py_index pron (int phone) of
              Inl e \<Rightarrow> Inl e
            | Inr p \<Rightarrow> me_dip_loop pron (phone + 1) (new_phone @ [p]))
         else
           (case py_index pron (int phone) of
              Inl e \<Rightarrow> Inl e
            | Inr p0 \<Rightarrow>
               (case py_index p0 (- 1) of
                  Inl e \<Rightarrow> Inl e
                | Inr c \<Rightarrow>
                   (case and_also (Inr (dip_i (if c = CHR '':'' then butlast p0 else p0) \<noteq> None))
                           (ebind (py_index pron (int phone + 1))
                              (\<lambda>n. Inr (n \<in> set [''j'', ''h'']))) of
                      Inl e \<Rightarrow> Inl e
                    | Inr in_i \<Rightarrow>
                       if in_i then
                         me_dip_loop pron (phone + 2)
                           (new_phone @ [the (dip_i (if c = CHR '':'' then butlast p0 else p0))])
                       else
                         (case and_also
                                 (Inr (dip_u (if c = CHR '':'' then butlast p0 else p0) \<noteq> None))
                                 (ebind (py_index pron (int phone + 1))
                                    (\<lambda>n. Inr (n \<in> set [''G'', ''w'']))) of
                            Inl e \<Rightarrow> Inl e
                          | Inr in_u \<Rightarrow>
                             if in_u then
                               me_dip_loop pron (phone + 2)
                                 (new_phone @
                                    [the (dip_u (if c = CHR '':'' then butlast p0 else p0))])
                             else
                               (case py_index pron (int phone) of
                                  Inl e \<Rightarrow> Inl e
                                | Inr p \<Rightarrow> me_dip_loop pron (phone + 1) (new_phone @ [p])))))))
      else Inr new_phone)"
  by pat_completeness auto
termination
  by (relation "measure (\<lambda>(pron, phone, new_phone). length pron - phone)") auto

declare me_dip_loop.simps [simp del]

definition me_diphthongization :: "string list \<Rightarrow> py_error + string list" where
  "me_diphthongization pron = me_dip_loop pron 0 []"

text \<open>The metathesis step of \<open>middle_english_changes\<close> (\<open>ri > ir\<close> after a consonant).\<close>

definition me_metathesis :: "string list \<Rightarrow> string list" where
  "me_metathesis me_pron =
     (if contains (r_bsl @ '' i'') (join '' '' me_pron) then
        (let mw_pron = split (replace (r_bsl @ '' i'') (r_bsl @ ''_i'') (join '' '' me_pron));
             mw_pron = join '' '' (sound_change mw_pron (map_of [(r_bsl @ ''_i'', ''i_'' @ r_bsl)])
                                     (seqs [CONSONANT_PATTERN, Eol]) dot_star)
         in split (replace ''_'' '' '' mw_pron))
      else me_pron)"

definition middle_english_changes :: "string list \<Rightarrow> py_error + string list" where
  "middle_english_changes pron =
     (let me_pron = sound_change pron (map_of [(''y'', ''i''), (''ae'', ''a'')]) dot_star dot_star;
          me_pron = sound_change me_pron
                      (map_of [(''y:'', ''i:''), (''ae:'', ''E:''), (''a:'', ''O:'')])
                      dot_star dot_star;
          me_pron = sound_change me_pron
                      (map_of [(''ea'', ''a''), (''eo'', ''e''), (''ie'', ''i'')])
                      dot_star dot_star
      in ebind (me_vowel_lengthening me_pron) (\<lambda>me_pron.
         ebind (me_vowel_shortening me_pron) (\<lambda>me_pron.
         ebind (me_second_lengthening me_pron) (\<lambda>me_pron.
           (let me_pron = sound_change me_pron (map_of [(''e'', ''a'')]) dot_star
                            (seqs [Bol, Lit CHR ''r'']);
                me_pron = sound_change me_pron (map_of [(''e'', ''i'')]) dot_star
                            (seqs [Bol, Cls ''Nn'', Cls ''kgdt'']);
                me_pron = me_metathesis me_pron
            in ebind (me_diphthongization me_pron) (\<lambda>me_pron.
                 (let me_pron = split (replace ''s k_>'' ''s_k_>'' (join '' '' me_pron));
                      me_pron = sound_change me_pron (map_of [(''s_k_>'', ''tS'')])
                                  dot_star dot_star;
                      me_pron = sound_change me_pron (map_of [(''k_>'', ''tS''), (''G'', ''w'')])
                                  dot_star dot_star;
                      me_pron = sound_change me_pron (map_of [(''h'', '''')]) dot_star
                                  (seqs [Bol, Cls ''lrn'']);
                      me_pron = sound_change me_pron (map_of [(''x'', ''h'')]) dot_star
                                  (seqs [Bol, Lit CHR ''w'']);
                      me_pron = sound_change me_pron (map_of [(''xw'', ''w'')]) dot_star dot_star
                  in Inr me_pron)))))))"

subsection \<open>Early Modern English\<close>

definition great_vowel_shift :: "string \<rightharpoonup> string" where
  "great_vowel_shift = map_of [(''i:'', ''aI''), (''e:'', ''i''), (''E:'', ''i''), (''u'', ''au''),
     (''oU'', ''u:''), (''O'', ''ou''), (''A:'', ''ae''), (''ae:'', ''eI'')]"

text \<open>The vowel reduction loop: every vowel after the first becomes \<open>@\<close>.\<close>

fun vowel_reduction :: "string list \<Rightarrow> bool \<Rightarrow> string list \<Rightarrow> string list" where
  "vowel_reduction [] found_first_vowel new_pron = new_pron"
| "vowel_reduction (phone # rest) found_first_vowel new_pron =
     (if phone \<notin> set vowels then vowel_reduction rest found_first_vowel (new_pron @ [phone])
      else if \<not> found_first_vowel then vowel_reduction rest True (new_pron @ [phone])
      else vowel_reduction rest found_first_vowel (new_pron @ [''@'']))"

definition early_modern_english_changes :: "string list \<Rightarrow> string list" where
  "early_modern_english_changes pron =
     (let emod_pron = sound_change pron (map_of [(''a'', ''O:'')]) dot_star
                        (seqs [Bol, Lit CHR ''l'', Star Dot]);
          emod_pron = sound_change emod_pron (map_of [(''a'', ''ae'')]) dot_star dot_star;
          emod_pron = sound_change emod_pron (map_of [(''u'', ''V'')])
                        (seqs [Star Dot, Cls ''pfwb'', Eol]) dot_star;
          emod_pron = sound_change emod_pron (map_of [(''u'', ''V'')]) dot_star
                        (seqs [Bol, Cls ''lS'', Eol]);
          emod_pron = sound_change emod_pron great_vowel_shift dot_star dot_star;
          emod_pron = sound_change emod_pron
                        (map_of [(''ai'', ''eI''), (''au'', ''O''), (''iu'', ''ju''),
                                 (''eu'', ''ju''), (''Eu'', ''ju''), (''Ou'', ''oU''),
                                 (''ui'', ''OI'')])
                        dot_star dot_star;
          emod_pron = split (replace ''ju'' ''j u'' (replace ''Eu'' ''j u''
                        (replace ''eu'' ''j u'' (replace ''iu'' ''j u'' (join '' '' emod_pron)))));
          emod_pron = sound_change emod_pron
                        (map_of [(''f'', ''v''), (''T'', ''D''), (''s'', ''z''), (''tS'', ''dZ'')])
                        (seqs [Star Dot, VOWEL_PATTERN, Star Dot, Lit CHR '' '', Star Dot,
                               VOWEL_PATTERN, Star Dot])
                        dot_star;
          emod_pron = sound_change emod_pron (map_of [(''x'', ''f'')])
                        (seqs [Star Dot, str ''ae'', Eol]) dot_star;
          emod_pron = sound_change emod_pron (map_of [(''x'', '''')]) dot_star dot_star;
          emod_pron = sound_change emod_pron (map_of [(''b'', '''')])
                        (seqs [Star Dot, Lit CHR ''m'', Eol]) dot_star;
          emod_pron = split (replace ''t j'' ''tS '' (join '' '' emod_pron));
          emod_pron = split (replace ''d j'' ''dZ '' (join '' '' emod_pron));
          emod_pron = split (replace ''s j'' ''S '' (join '' '' emod_pron));
          emod_pron = split (replace ''z j'' ''Z '' (join '' '' emod_pron));
          emod_pron = vowel_reduction emod_pron False [];
          emod_pron = map (\<lambda>p. if p \<in> set vowels then strip_colon p else p) emod_pron;
          emod_pron = split (replace ''kw'' ''k w'' (join '' '' emod_pron));
          emod_pron = split (replace ''gw'' ''g w'' (join '' '' emod_pron));
          emod_pron = map (\<lambda>p. if p = ''io'' then ''IO'' else p) emod_pron
      in emod_pron)"

section \<open>The spelling generator\<close>

definition sampa_map :: "string \<rightharpoonup> string" where
  "sampa_map = map_of [(''e'', ''eI''), (''u:'', ''u''), (''a:'', ''A''), (''iu'', ''ju''),
     (''au'', ''aU''), (''io'', ''IO''), (''eu'', ''ju''), (''o:'', ''o''), (''i:'', ''i''),
     (''e:'', ''E''), (''a'', ''A''), (''ae'', ''eI'')]"

text \<open>\<open>sorted(xs, reverse=True, key=k)\<close>: Python reverses, sorts stably, reverses.\<close>

definition sorted_rev_key :: "('a \<Rightarrow> 'k::linorder) \<Rightarrow> 'a list \<Rightarrow> 'a list" where
  "sorted_rev_key k xs = rev (sort_key k (rev xs))"

text \<open>
  The p2g model \<open>spelling_model\<close> is read from \<open>p2g_model.json\<close>, which is not part of the
  sources: it is a parameter.  It maps a phone text to a dictionary from letter sequences
  to counts; the inner dictionary is the list of its items, in the order of the file.
\<close>

type_synonym p2g = "string \<rightharpoonup> (string \<times> int) list"

text \<open>
  The spelling of one group: \<open>sorted([(sp, count) ...], reverse=True, key=count)[0]\<close>.
\<close>

definition top_spelling :: "p2g \<Rightarrow> string \<Rightarrow> py_error + (string \<times> int)" where
  "top_spelling spelling_model phone_seq =
     (case spelling_model phone_seq of
        None \<Rightarrow> Inl KeyError
      | Some d \<Rightarrow> py_index (sorted_rev_key snd d) 0)"

fun phone_seqs_loop :: "p2g \<Rightarrow> string list list \<Rightarrow> (string \<times> int) list \<Rightarrow>
    py_error + (string \<times> int) list" where
  "phone_seqs_loop spelling_model [] phone_seqs = Inr phone_seqs"
| "phone_seqs_loop spelling_model (phone_seq_list # rest) phone_seqs =
     (case top_spelling spelling_model (concat phone_seq_list) of
        Inl e \<Rightarrow> Inl e
      | Inr t \<Rightarrow> phone_seqs_loop spelling_model rest (phone_seqs @ [t]))"

text \<open>The two touch-ups of the raw spelling.\<close>

definition insert_silent_e :: "string \<Rightarrow> py_error + string" where
  "insert_silent_e new_spelling =
     ebind
       (and_also (ebind (py_index new_spelling (- 1)) (\<lambda>c. Inr (c \<in> set ''wrlmn'')))
                 (ebind (py_index new_spelling (- 2)) (\<lambda>c. Inr (c \<notin> set ''aeiouy''))))
       (\<lambda>cond. if cond
                then ebind (py_index new_spelling (- 1))
                       (\<lambda>c. Inr (butlast new_spelling @ ''e'' @ [c]))
                else Inr new_spelling)"

definition append_final_e :: "string \<Rightarrow> bool \<Rightarrow> py_error + string" where
  "append_final_e new_spelling final_e =
     ebind
       (and_also (Inr final_e) (ebind (py_index new_spelling (- 1)) (\<lambda>c. Inr (c \<noteq> CHR ''e''))))
       (\<lambda>cond. if cond then Inr (new_spelling @ ''e'') else Inr new_spelling)"

definition touch_up :: "string \<Rightarrow> bool \<Rightarrow> py_error + string" where
  "touch_up new_spelling final_e =
     ebind (insert_silent_e new_spelling) (\<lambda>new_spelling. append_final_e new_spelling final_e)"

text \<open>The test \<open>False in [''.join(phone_seq_list) in spelling_model for ...]\<close>\<close>

definition not_covered :: "p2g \<Rightarrow> string list list \<Rightarrow> bool" where
  "not_covered spelling_model broken_pron =
     list_ex (\<lambda>phone_seq_list. spelling_model (concat phone_seq_list) = None) broken_pron"

text \<open>
  The raw spelling and the score of an accepted partition.  The score is a Python
  float: \<open>fdiv a b\<close> stands for \<open>float(a) / float(b)\<close>, and its values are ordered as the
  floats are.
\<close>

definition raw_spelling :: "(string \<times> int) list \<Rightarrow> string" where
  "raw_spelling phone_seqs = concat (map fst phone_seqs)"

definition score :: "(int \<Rightarrow> int \<Rightarrow> 'f) \<Rightarrow> (string \<times> int) list \<Rightarrow> string list list \<Rightarrow> 'f" where
  "score fdiv phone_seqs broken_pron =
     fdiv (sum_list (map snd phone_seqs)) (int (length broken_pron))"

definition spell_partition :: "p2g \<Rightarrow> (int \<Rightarrow> int \<Rightarrow> 'f) \<Rightarrow> bool \<Rightarrow> string list list \<Rightarrow>
    py_error + (string \<times> 'f)" where
  "spell_partition spelling_model fdiv final_e broken_pron =
     ebind (phone_seqs_loop spelling_model broken_pron []) (\<lambda>phone_seqs.
       ebind (touch_up (raw_spelling phone_seqs) final_e) (\<lambda>new_spelling.
         Inr (new_spelling, score fdiv phone_seqs broken_pron)))"

fun spellings_loop :: "p2g \<Rightarrow> (int \<Rightarrow> int \<Rightarrow> 'f) \<Rightarrow> bool \<Rightarrow> string list list list \<Rightarrow>
    (string \<times> 'f) list \<Rightarrow> py_error + (string \<times> 'f) list" where
  "spellings_loop spelling_model fdiv final_e [] spellings = Inr spellings"
| "spellings_loop spelling_model fdiv final_e (broken_pron # rest) spellings =
     (if not_covered spelling_model broken_pron
      then spellings_loop spelling_model fdiv final_e rest spellings
      else (case spell_partition spelling_model fdiv final_e broken_pron of
              Inl e \<Rightarrow> Inl e
            | Inr s \<Rightarrow> spellings_loop spelling_model fdiv final_e rest (spellings @ [s])))"

definition normalize :: "string list \<Rightarrow> string list" where
  "normalize pron = map (\<lambda>p. case sampa_map p of Some q \<Rightarrow> q | None \<Rightarrow> p) pron"

definition generate_spelling :: "p2g \<Rightarrow> (int \<Rightarrow> int \<Rightarrow> 'f::linorder) \<Rightarrow> string list \<Rightarrow> bool \<Rightarrow>
    py_error + string list" where
  "generate_spelling spelling_model fdiv pron final_e =
     (let pron = normalize pron;
          combinations = pron_breaker pron
      in ebind (spellings_loop spelling_model fdiv final_e combinations [])
           (\<lambda>spellings. Inr (map fst (take 5 (sorted_rev_key snd spellings)))))"

section \<open>The word assembler\<close>

text \<open>
  The tables that \<open>piebot.py\<close> reads from files that are not part of the sources: the
  roots (identifier, pronunciation and meaning, in the order of the file), the suffixes
  as \<open>read_in_pie_suffixes\<close> returns them (meaning and pronunciation), the p2g model and
  the X-SAMPA to IPA table.
\<close>

record tables =
  pie_roots :: "(string \<times> string \<times> string) list"
  pie_suffixes :: "(string \<times> string \<times> string) list"
  spelling_model :: p2g
  xsampa2ipa :: "string \<rightharpoonup> string"

text \<open>
  \<open>xsampa_pie_roots\<close> and \<open>english_roots\<close>: the loops assign in the order of the file, so
  a later root wins.
\<close>

definition xsampa_pie_roots :: "tables \<Rightarrow> string \<rightharpoonup> string" where
  "xsampa_pie_roots tb = map_of (rev (map (\<lambda>(root, pron, meaning). (pron, root)) (pie_roots tb)))"

definition english_roots :: "tables \<Rightarrow> string \<rightharpoonup> string" where
  "english_roots tb = map_of (rev (map (\<lambda>(root, pron, meaning). (meaning, root)) (pie_roots tb)))"

text \<open>The dictionary that \<open>generate_entry\<close> returns; the field \<open>e_k\<close> is the key \<open>k\<close>.\<close>

record word_entry =
  e_token :: string
  e_pron :: string
  e_meaning :: string
  e_spelling :: string
  e_mode :: "string list"
  e_pgmc :: "string list"
  e_olde :: "string list"
  e_mide :: "string list"
  e_modex :: "string list"
  e_pgmcx :: "string list"
  e_oldex :: "string list"
  e_midex :: "string list"

definition lookup :: "('k \<rightharpoonup> 'v) \<Rightarrow> 'k \<Rightarrow> py_error + 'v" where
  "lookup m k = (case m k of None \<Rightarrow> Inl KeyError | Some v \<Rightarrow> Inr v)"

text \<open>\<open>[xsampa2ipa[p] for p in pron]\<close>\<close>

fun to_ipa :: "(string \<rightharpoonup> string) \<Rightarrow> string list \<Rightarrow> py_error + string list" where
  "to_ipa m [] = Inr []"
| "to_ipa m (p # ps) =
     (case lookup m p of
        Inl e \<Rightarrow> Inl e
      | Inr x \<Rightarrow> (case to_ipa m ps of Inl e \<Rightarrow> Inl e | Inr xs \<Rightarrow> Inr (x # xs)))"

text \<open>\<open>random.choice(xs)\<close>; \<open>choice\<close> stands for the random pick from a non-empty list.\<close>

definition random_choice :: "(string list \<Rightarrow> string) \<Rightarrow> string list \<Rightarrow> py_error + string" where
  "random_choice choice xs = (if xs = [] then Inl IndexError else Inr (choice xs))"

text \<open>
  The first part of \<open>generate_entry\<close>: the root is resolved (\<open>None\<close> stands for the
  early \<open>return ""\<close> after the message that the root was not found).
\<close>

definition resolve_token :: "tables \<Rightarrow> (string list \<Rightarrow> string) \<Rightarrow> string option \<Rightarrow>
    py_error + string option" where
  "resolve_token tb choice pie_token =
     (if pie_token = None \<or> pie_token = Some [] then
        ebind (random_choice choice (map fst (pie_roots tb))) (\<lambda>t. Inr (Some t))
      else if map_of (pie_roots tb) (the pie_token) \<noteq> None then Inr pie_token
      else if xsampa_pie_roots tb (the pie_token) \<noteq> None
        then Inr (xsampa_pie_roots tb (the pie_token))
      else if english_roots tb (the pie_token) \<noteq> None
        then Inr (english_roots tb (the pie_token))
      else Inr None)"

definition resolve_suffix :: "tables \<Rightarrow> (string list \<Rightarrow> string) \<Rightarrow> string option \<Rightarrow>
    py_error + string option" where
  "resolve_suffix tb choice pie_suffix =
     (if pie_suffix = Some ''random''
      then ebind (random_choice choice (map fst (pie_suffixes tb))) (\<lambda>s. Inr (Some s))
      else Inr pie_suffix)"

text \<open>The dictionary \<open>pie_word\<close> before the pipeline: token, pronunciation, meaning.\<close>

definition combine :: "tables \<Rightarrow> string \<Rightarrow> string option \<Rightarrow> py_error + (string \<times> string \<times> string)" where
  "combine tb pie_token pie_suffix =
     (if pie_suffix = None \<or> pie_suffix = Some [] then
        ebind (lookup (map_of (pie_roots tb)) pie_token) (\<lambda>(rpron, rmeaning).
          Inr (pie_token, rpron, rmeaning))
      else
        ebind (lookup (map_of (pie_roots tb)) pie_token) (\<lambda>(rpron, rmeaning).
        ebind (lookup (map_of (pie_suffixes tb)) (the pie_suffix)) (\<lambda>(smeaning, spron).
          Inr (pie_token @ the pie_suffix, rpron @ '' '' @ spron,
               rmeaning @ '' + '' @ smeaning))))"

text \<open>The pipeline and the assembly of the entry, from the combined pronunciation on.\<close>

definition build_entry :: "tables \<Rightarrow> (int \<Rightarrow> int \<Rightarrow> 'f::linorder) \<Rightarrow> string \<times> string \<times> string \<Rightarrow>
    py_error + word_entry" where
  "build_entry tb fdiv pie_word =
     (let pie_pron = split (fst (snd pie_word));
          lpp = late_pie_changes pie_pron;
          grimm_pron = grimm_changes lpp;
          verner_pron = verner_changes grimm_pron;
          pg_pron = proto_germanic_changes verner_pron;
          oe_pron = old_english_changes pg_pron;
          loe_pron = late_old_english_changes oe_pron
      in ebind (middle_english_changes loe_pron) (\<lambda>me_pron.
         ebind (py_index me_pron (- 1)) (\<lambda>l.
           (let final_e = (l \<in> set vowels);
                emod_pron = early_modern_english_changes me_pron
            in ebind (generate_spelling (spelling_model tb) fdiv emod_pron final_e) (\<lambda>cands.
               ebind (py_index cands 0) (\<lambda>sp.
               ebind (to_ipa (xsampa2ipa tb) emod_pron) (\<lambda>mx.
               ebind (to_ipa (xsampa2ipa tb) pg_pron) (\<lambda>px.
               ebind (to_ipa (xsampa2ipa tb) oe_pron) (\<lambda>ox.
               ebind (to_ipa (xsampa2ipa tb) me_pron) (\<lambda>ex.
                 Inr \<lparr>e_token = fst pie_word, e_pron = fst (snd pie_word),
                      e_meaning = snd (snd pie_word), e_spelling = sp,
                      e_mode = emod_pron, e_pgmc = pg_pron, e_olde = oe_pron, e_mide = me_pron,
                      e_modex = mx, e_pgmcx = px, e_oldex = ox, e_midex = ex\<rparr>))))))))))"

definition generate_entry :: "tables \<Rightarrow> (string list \<Rightarrow> string) \<Rightarrow> (int \<Rightarrow> int \<Rightarrow> 'f::linorder) \<Rightarrow>
    string option \<Rightarrow> string option \<Rightarrow> py_error + word_entry option" where
  "generate_entry tb choice fdiv pie_token pie_suffix =
     ebind (resolve_token tb choice pie_token) (\<lambda>tok.
       case tok of
         None \<Rightarrow> Inr None
       | Some pie_token \<Rightarrow>
           ebind (resolve_suffix tb choice pie_suffix) (\<lambda>pie_suffix.
           ebind (combine tb pie_token pie_suffix) (\<lambda>pie_word.
           ebind (build_entry tb fdiv pie_word) (\<lambda>entry. Inr (Some entry)))))"

text \<open>
  The Middle English pronunciation that \<open>generate_entry\<close> computes, as a function of the
  combined phone sequence \<open>pie_pron\<close>.
\<close>

definition me_of :: "string list \<Rightarrow> py_error + string list" where
  "me_of pie_pron =
     middle_english_changes (late_old_english_changes (old_english_changes
       (proto_germanic_changes (verner_changes (grimm_changes (late_pie_changes pie_pron))))))"

text \<open>An instance of the float division, with exact quotients.\<close>

definition fl_div :: "int \<Rightarrow> int \<Rightarrow> rat" where
  "fl_div a b = of_int a / of_int b"

text \<open>A root table whose only root is made of laryngeals.\<close>

definition tb_laryngeal :: tables where
  "tb_laryngeal = \<lparr>pie_roots = [(''H'', ''h1 h2'', ''breath'')], pie_suffixes = [],
     spelling_model = Map.empty, xsampa2ipa = Map.empty\<rparr>"

text \<open>Two small p2g models and a table without spellings, for the examples.\<close>

definition model_n :: p2g where
  "model_n = map_of [(''n'', [(''n'', 1)])]"

definition model_o :: p2g where
  "model_o = map_of [(''o'', [(''o'', 5)])]"

definition tb_no_spelling :: tables where
  "tb_no_spelling = \<lparr>pie_roots = [(''M'', ''m'', ''measure'')], pie_suffixes = [],
     spelling_model = Map.empty, xsampa2ipa = Map.empty\<rparr>"

text \<open>
  For the statement on ranking: \<open>t\<close> is an item of the dictionary \<open>d\<close> with the highest
  count; \<open>e\<close> is a spelling and a score that fit the partition \<open>bp\<close>; the accepted
  partitions of a sequence, in the order of the enumeration.
\<close>

definition is_top :: "(string \<times> int) list \<Rightarrow> string \<times> int \<Rightarrow> bool" where
  "is_top d t \<longleftrightarrow> t \<in> set d \<and> (\<forall>x \<in> set d. snd x \<le> snd t)"

definition partition_result :: "p2g \<Rightarrow> (int \<Rightarrow> int \<Rightarrow> 'f) \<Rightarrow> bool \<Rightarrow> string list list \<Rightarrow>
    string \<times> 'f \<Rightarrow> bool" where
  "partition_result model fdiv final_e bp e \<longleftrightarrow>
     (\<exists>ps. list_all2 (\<lambda>g t. \<exists>d. model (concat g) = Some d \<and> is_top d t) bp ps
         \<and> touch_up (concat (map fst ps)) final_e = Inr (fst e)
         \<and> snd e = fdiv (sum_list (map snd ps)) (int (length bp)))"

definition accepted :: "p2g \<Rightarrow> string list \<Rightarrow> string list list list" where
  "accepted model pron =
     filter (\<lambda>bp. \<not> not_covered model bp) (pron_breaker (normalize pron))"

definition model_knot :: p2g where
  "model_knot = map_of [(''n'', [(''n'', 1), (''nn'', 3)]), (''o'', [(''o'', 5)]),
     (''t'', [(''t'', 4)]), (''no'', [(''kno'', 10)])]"

subsection \<open>What a pattern can leave unread\<close>

text \<open>The texts that remain after a match of \<open>r\<close> that starts at \<open>p\<close>.\<close>

definition ends :: "regex \<Rightarrow> pos \<Rightarrow> string set" where
  "ends r p = snd ` set (rmatch r p)"

text \<open>
  The text holds a vowel token, then characters other than a line feed, then a space:
  what the prior pattern of Verner's Law looks for.
\<close>

definition vowel_then_space :: "string \<Rightarrow> bool" where
  "vowel_then_space text \<longleftrightarrow>
     (\<exists>u v w x. text = u @ v @ w @ CHR 0x20 # x \<and> v \<in> set vowels \<and> newline \<notin> set w)"

section \<open>Properties of the sound change engine\<close>

lemma sc_loop_enumerate:
  "sc_loop orig pm pr po (enumerate n xs) acc =
     acc @ map (emitted orig pm pr po) [n ..< n + length xs]"
proof (induction xs arbitrary: n acc)
  case Nil
  then show ?case by simp
next
  case (Cons x xs)
  have "[n ..< n + length (x # xs)] = n # [Suc n ..< Suc n + length xs]"
    by (simp add: upt_rec)
  then show ?case
    using Cons.IH [of "Suc n"]
    by (auto simp: emitted_def Let_def dom_def split: option.splits)
qed

lemma sound_change_emitted:
  "sound_change pron pm pr po =
     filter (\<lambda>c. c \<noteq> []) (map (emitted pron pm pr po) [0 ..< length pron])"
  unfolding sound_change_def by (simp add: sc_loop_enumerate)

lemma search_dot_star [simp]: "search dot_star s"
  by (cases s) (simp_all add: search_def dot_star_def)

text \<open>
  C2.  For every sequence, rule map and pair of context patterns, \<open>sound_change\<close>
  returns the list of what is emitted at the positions \<open>0, ..., n - 1\<close>, in order, with
  the empty strings dropped.  What is emitted at \<open>i\<close> is \<open>ruleMap[sequence[i]]\<close> exactly
  when \<open>sequence[i]\<close> is a key of \<open>ruleMap\<close>, the prior pattern is found in the
  space-joined phones before \<open>i\<close> and the posterior pattern in the space-joined phones
  after \<open>i\<close>, both read from the input sequence; it is \<open>sequence[i]\<close> otherwise.
\<close>

theorem sound_change_spec:
  "sound_change sequence ruleMap priorContext posteriorContext =
     filter (\<lambda>c. c \<noteq> [])
       (map (\<lambda>i. if sequence ! i \<in> dom ruleMap
                     \<and> search priorContext (join '' '' (take i sequence))
                     \<and> search posteriorContext (join '' '' (drop (Suc i) sequence))
                   then the (ruleMap (sequence ! i)) else sequence ! i)
          [0 ..< length sequence])"
  unfolding sound_change_def by (simp add: sc_loop_enumerate emitted_def [abs_def])

theorem sound_change_spec_witness:
  "sound_change [''a'', ''h1'', ''o''] [''h1'' \<mapsto> ''''] dot_star dot_star = [''a'', ''o'']"
  using sound_change_spec [of "[''a'', ''h1'', ''o'']" "[''h1'' \<mapsto> '''']" dot_star dot_star]
  by (simp add: upt_rec)

section \<open>Properties of the partition enumerator\<close>

lemma pron_breaker_Nil: "pron_breaker [] = []"
  by (subst pron_breaker.simps) simp

lemma pron_breaker_1: "pron_breaker [a] = [[[a]]]"
  by (subst pron_breaker.simps) simp

lemma pron_breaker_2: "pron_breaker [a, b] = [[[a], [b]], [[a], [b]]]"
  by (subst pron_breaker.simps) (simp add: upt_rec pron_breaker_1)

lemma pron_breaker_3:
  "pron_breaker [a, b, c] =
     [[[a], [b, c]], [[a], [b], [c]], [[a], [b], [c]], [[a, b], [c]], [[a, b], [c]]]"
  by (subst pron_breaker.simps) (simp add: upt_rec pron_breaker_1 pron_breaker_2)

lemma pron_breaker_first:
  "ps \<in> set (pron_breaker pron) \<Longrightarrow>
     length pron = 1 \<or> (\<exists>i. i < length pron \<and> hd ps = take i pron)"
  by (subst (asm) pron_breaker.simps) (auto split: if_splits)

text \<open>
  The partition that keeps the whole sequence in one group is yielded for a sequence of
  one phone only.
\<close>

lemma pron_breaker_no_whole:
  "length pron \<noteq> 1 \<Longrightarrow> [pron] \<notin> set (pron_breaker pron)"
proof
  assume len: "length pron \<noteq> 1" and mem: "[pron] \<in> set (pron_breaker pron)"
  from pron_breaker_first [OF mem] len
  obtain i where i: "i < length pron" and eq: "hd [pron] = take i pron"
    by blast
  have "length (hd [pron]) = length (take i pron)"
    by (rule arg_cong [OF eq])
  with i show False by simp
qed

text \<open>
  C1.  The claim is that \<open>pron_breaker\<close> yields every composition of the sequence
  exactly once, \<open>2 ^ (n - 1)\<close> in all, the one-group partition included.  On the two
  phones \<open>a, b\<close> the generator yields the partition \<open>[a], [b]\<close> twice and never the
  one-group partition \<open>[a, b]\<close>; on three phones it yields five partitions, not four.
\<close>

theorem pron_breaker_two_phones:
  "pron_breaker [''a'', ''b''] = [[[''a''], [''b'']], [[''a''], [''b'']]]
   \<and> [[''a'', ''b'']] \<notin> set (pron_breaker [''a'', ''b''])
   \<and> length (pron_breaker [''a'', ''b'', ''c'']) = 5"
  by (simp add: pron_breaker_2 pron_breaker_3)

section \<open>Properties of the era stages\<close>

text \<open>
  C4.  The claim is that the first pass of Grimm's Law leaves a voiceless stop unshifted
  whenever the phone just before it is \<open>s\<close>.  The prior pattern is searched, not
  anchored at the end of the prior text, so it is found as soon as the prior text holds
  any character other than \<open>s\<close>: after \<open>e, s\<close> the stop \<open>p\<close> is shifted to \<open>f\<close>.  The
  two examples of the claim hold: \<open>s, p, e\<close> is unchanged and \<open>p, e\<close> becomes \<open>f, e\<close>.
\<close>

theorem grimm_shifts_after_s:
  "grimm_pass1 [''e'', ''s'', ''p''] = [''e'', ''s'', ''f'']
   \<and> grimm_changes [''e'', ''s'', ''p''] = [''e'', ''s'', ''f'']
   \<and> grimm_changes [''s'', ''p'', ''e''] = [''s'', ''p'', ''e'']
   \<and> grimm_changes [''p'', ''e''] = [''f'', ''e'']"
  by code_simp

section \<open>What the patterns match\<close>

lemma star_dot_ends:
  "length s \<le> n \<Longrightarrow>
     snd ` set (star_from n (rmatch Dot) (b, s)) = {t. \<exists>w. s = w @ t \<and> newline \<notin> set w}"
proof (induction s arbitrary: n b)
  case Nil
  then show ?case by (cases n) auto
next
  case (Cons c cs)
  then obtain m where n: "n = Suc m" and m: "length cs \<le> m"
    by (cases n) auto
  show ?case
  proof (cases "c = newline")
    case True
    then show ?thesis
      by (auto simp: n Cons_eq_append_conv)
  next
    case False
    have "snd ` set (star_from n (rmatch Dot) (b, c # cs)) =
            insert (c # cs) (snd ` set (star_from m (rmatch Dot) (False, cs)))"
      using False by (simp add: n)
    also have "\<dots> = insert (c # cs) {t. \<exists>w. cs = w @ t \<and> newline \<notin> set w}"
      by (simp add: Cons.IH [OF m])
    also have "\<dots> = {t. \<exists>w. c # cs = w @ t \<and> newline \<notin> set w}"
      using False by (auto simp: Cons_eq_append_conv)
    finally show ?thesis .
  qed
qed

lemma ends_star_dot:
  "ends (Star Dot) (b, s) = {t. \<exists>w. s = w @ t \<and> newline \<notin> set w}"
  by (simp add: ends_def star_dot_ends)

lemma ends_Seq:
  assumes "\<And>b m. ends r2 (b, m) = R2 m"
  shows "ends (Seq r1 r2) p = (\<Union>m \<in> ends r1 p. R2 m)"
proof -
  have "ends (Seq r1 r2) p = (\<Union>q \<in> set (rmatch r1 p). ends r2 q)"
    by (auto simp: ends_def)
  also have "\<dots> = (\<Union>q \<in> set (rmatch r1 p). R2 (snd q))"
    using assms by (metis prod.collapse)
  also have "\<dots> = (\<Union>m \<in> ends r1 p. R2 m)"
    by (auto simp: ends_def)
  finally show ?thesis .
qed

lemma ends_Lit: "ends (Lit c) (b, s) = {t. s = c # t}"
  by (auto simp: ends_def split: list.splits)

lemma ends_alts:
  "rs \<noteq> [] \<Longrightarrow> ends (alts rs) p = (\<Union>r \<in> set rs. ends r p)"
proof (induction rs rule: alts.induct)
  case 1
  then show ?case by simp
next
  case (2 r)
  then show ?case by simp
next
  case (3 r v va)
  have "ends (alts (r # v # va)) p = ends r p \<union> ends (alts (v # va)) p"
    by (simp add: ends_def image_Un)
  also have "\<dots> = ends r p \<union> (\<Union>x \<in> set (v # va). ends x p)"
    using 3 by simp
  finally show ?case by simp
qed

lemma ends_str:
  "v \<noteq> [] \<Longrightarrow> ends (str v) (b, s) = {t. s = v @ t}"
proof (induction v arbitrary: b s)
  case Nil
  then show ?case by simp
next
  case (Cons c v)
  show ?case
  proof (cases v)
    case Nil
    then show ?thesis by (simp add: str_def ends_Lit)
  next
    case (Cons d v')
    have IH: "\<And>b m. ends (str v) (b, m) = {t. m = v @ t}"
      using Cons.IH Cons by simp
    have "str (c # v) = Seq (Lit c) (str v)"
      using Cons by (simp add: str_def)
    then show ?thesis
      by (auto simp: ends_Seq [OF IH] ends_Lit)
  qed
qed

lemma vowels_nonempty: "v \<in> set vowels \<Longrightarrow> v \<noteq> []"
  by (auto simp: vowels_def)

lemma ends_VOWEL_PATTERN:
  "ends VOWEL_PATTERN (b, s) = {t. \<exists>v \<in> set vowels. s = v @ t}"
proof -
  have ne: "map str (sorted_len_rev vowels) \<noteq> []"
    by (simp add: sorted_len_rev_def vowels_def)
  have "set (sorted_len_rev vowels) = set vowels"
    by (simp add: sorted_len_rev_def)
  then show ?thesis
    unfolding VOWEL_PATTERN_def ends_alts [OF ne]
    by (auto simp: ends_str vowels_nonempty)
qed

lemma ends_space_any: "ends (Seq (Lit CHR 0x20) (Star Dot)) (b, m) = {t. \<exists>w3. m = CHR 0x20 # w3 @ t \<and> newline \<notin> set w3}"
  by (subst ends_Seq [OF ends_star_dot]) (auto simp: ends_Lit)

lemma ends_any_space_any: "ends (Seq (Star Dot) (Seq (Lit CHR 0x20) (Star Dot))) (b, m) = {t. \<exists>w2 w3. m = w2 @ CHR 0x20 # w3 @ t \<and> newline \<notin> set w2 \<and> newline \<notin> set w3}"
  unfolding ends_Seq [OF ends_space_any] ends_star_dot by blast

lemma ends_vowel_any_space_any: "ends (Seq VOWEL_PATTERN (Seq (Star Dot) (Seq (Lit CHR 0x20) (Star Dot)))) (b, m) = {t. \<exists>v w2 w3. m = v @ w2 @ CHR 0x20 # w3 @ t \<and> v \<in> set vowels \<and> newline \<notin> set w2 \<and> newline \<notin> set w3}"
  unfolding ends_Seq [OF ends_any_space_any] ends_VOWEL_PATTERN by blast

lemma ends_verner_prior: "ends verner_prior (b, s) = {t. \<exists>w1 v w2 w3. s = w1 @ v @ w2 @ CHR 0x20 # w3 @ t \<and> newline \<notin> set w1 \<and> v \<in> set vowels \<and> newline \<notin> set w2 \<and> newline \<notin> set w3}"
  unfolding verner_prior_def seqs.simps
  by (subst ends_Seq [OF ends_vowel_any_space_any]) (auto simp: ends_star_dot)

lemma later_pos_set:
  "set (later_pos s) = {(False, t) | t. \<exists>u. u \<noteq> [] \<and> s = u @ t}"
proof (induction s)
  case Nil
  then show ?case by simp
next
  case (Cons c cs)
  have "{(False, t) | t. \<exists>u. u \<noteq> [] \<and> c # cs = u @ t} =
          insert (False, cs) {(False, t) | t. \<exists>u. u \<noteq> [] \<and> cs = u @ t}"
    (is "?L = ?R")
  proof (intro set_eqI iffI)
    fix p assume "p \<in> ?L"
    then obtain t u where p: "p = (False, t)" and u: "u \<noteq> []" and eq: "c # cs = u @ t"
      by blast
    from u eq obtain u' where u': "u = c # u'" "cs = u' @ t"
      by (cases u) simp_all
    show "p \<in> ?R"
    proof (cases "u' = []")
      case True
      with u' p show ?thesis by simp
    next
      case False
      with u' p show ?thesis by blast
    qed
  next
    fix p assume "p \<in> ?R"
    then consider "p = (False, cs)" | t u where "p = (False, t)" "u \<noteq> []" "cs = u @ t"
      by blast
    then show "p \<in> ?L"
    proof cases
      case 1
      have "[c] \<noteq> [] \<and> c # cs = [c] @ cs" by simp
      with 1 show ?thesis by blast
    next
      case 2
      have "c # u \<noteq> [] \<and> c # cs = (c # u) @ t" using 2 by simp
      with 2 show ?thesis by blast
    qed
  qed
  then show ?case
    by (simp add: Cons.IH)
qed

lemma search_iff:
  "search r s \<longleftrightarrow> ends r (True, s) \<noteq> {} \<or> (\<exists>u t. u \<noteq> [] \<and> s = u @ t \<and> ends r (False, t) \<noteq> {})"
  unfolding search_def list_ex_iff set_simps later_pos_set ends_def
  by auto

lemma search_verner_prior: "search verner_prior text \<longleftrightarrow> vowel_then_space text"
proof
  assume s: "search verner_prior text"
  have "\<exists>b u t. text = u @ t \<and> ends verner_prior (b, t) \<noteq> {}"
  proof (cases "ends verner_prior (True, text) \<noteq> {}")
    case True
    then have "text = [] @ text \<and> ends verner_prior (True, text) \<noteq> {}" by simp
    then show ?thesis by blast
  next
    case False
    with s show ?thesis unfolding search_iff by blast
  qed
  then obtain b u t x where t: "text = u @ t" and x: "x \<in> ends verner_prior (b, t)"
    by blast
  from x obtain w1 v w2 w3 where
    d: "t = w1 @ v @ w2 @ CHR 0x20 # w3 @ x" "v \<in> set vowels" "newline \<notin> set w2"
    unfolding ends_verner_prior by blast
  have "text = (u @ w1) @ v @ w2 @ CHR 0x20 # (w3 @ x)"
    by (simp add: t d(1))
  with d(2,3) show "vowel_then_space text"
    unfolding vowel_then_space_def by blast
next
  assume "vowel_then_space text"
  then obtain u v w x where
    d: "text = u @ v @ w @ CHR 0x20 # x" "v \<in> set vowels" "newline \<notin> set w"
    unfolding vowel_then_space_def by blast
  have "v @ w @ CHR 0x20 # x = [] @ v @ w @ CHR 0x20 # [] @ x \<and> newline \<notin> set []"
    by simp
  with d(2,3) have "x \<in> ends verner_prior (b, v @ w @ CHR 0x20 # x)" for b
    unfolding ends_verner_prior by blast
  then have ne: "ends verner_prior (b, v @ w @ CHR 0x20 # x) \<noteq> {}" for b
    by blast
  show "search verner_prior text"
  proof (cases "u = []")
    case True
    with ne [of True] d(1) show ?thesis
      unfolding search_iff by simp
  next
    case False
    with ne [of False] d(1) show ?thesis
      unfolding search_iff by blast
  qed
qed

section \<open>Verner's Law\<close>

text \<open>
  C5, as the code has it.  The Verner step voices \<open>s\<close>, \<open>f\<close>, \<open>x\<close>, \<open>xw\<close> at position
  \<open>i\<close> exactly when the space-joined text of the phones before \<open>i\<close> holds a vowel token
  followed, after characters other than a line feed, by a space: the vowel is followed by
  at least one further phone before \<open>i\<close>.  The posterior context is unconstrained.
\<close>

theorem verner_rule:
  "verner_changes pron =
     filter (\<lambda>c. c \<noteq> [])
       (map (\<lambda>i. if pron ! i \<in> dom verner_map \<and> vowel_then_space (join '' '' (take i pron))
                   then the (verner_map (pron ! i)) else pron ! i)
          [0 ..< length pron])"
  unfolding verner_changes_def sound_change_emitted emitted_def [abs_def]
  by (simp add: search_verner_prior)

theorem verner_rule_witness:
  "filter (\<lambda>c. c \<noteq> [])
     (map (\<lambda>i. if [''a'', ''t'', ''a'', ''s'', ''a''] ! i \<in> dom verner_map
                   \<and> vowel_then_space (join '' '' (take i [''a'', ''t'', ''a'', ''s'', ''a'']))
                 then the (verner_map ([''a'', ''t'', ''a'', ''s'', ''a''] ! i))
                 else [''a'', ''t'', ''a'', ''s'', ''a''] ! i)
        [0 ..< length [''a'', ''t'', ''a'', ''s'', ''a'']])
   = [''a'', ''t'', ''a'', ''z'', ''a'']"
  unfolding verner_rule [of "[''a'', ''t'', ''a'', ''s'', ''a'']", symmetric]
  by code_simp

text \<open>
  C5, as stated, adds that this is the same as having at least two phones before \<open>i\<close>
  with a vowel among them.  In \<open>t, a, s\<close> two phones stand before \<open>s\<close> and \<open>a\<close> is a
  vowel, but no phone follows the vowel in the prior text \<open>t a\<close>, and \<open>s\<close> stays.
\<close>

theorem verner_two_prior_phones_counterexample:
  "[''t'', ''a'', ''s''] ! 2 = ''s''
   \<and> length (take 2 [''t'', ''a'', ''s'']) = 2
   \<and> ''a'' \<in> set (take 2 [''t'', ''a'', ''s''])
   \<and> ''a'' \<in> set vowels
   \<and> verner_changes [''t'', ''a'', ''s''] = [''t'', ''a'', ''s'']"
  by code_simp

section \<open>The stages on the empty sequence\<close>

lemma ebind_Inr [simp]: "ebind (Inr x) f = f x"
  by (simp add: ebind_def)

lemma ebind_Inl [simp]: "ebind (Inl e) f = Inl e"
  by (simp add: ebind_def)

lemma py_index_Nil [simp]: "py_index [] i = Inl IndexError"
  by (simp add: py_index_def Let_def)

lemma sound_change_Nil [simp]: "sound_change [] pm a b = []"
  by (simp add: sound_change_def)

lemma split_Nil [simp]: "split [] = []"
  by (simp add: split_def)

lemma late_pie_changes_all_deleted:
  "\<forall>p \<in> set pron. dict_h_deletion p \<noteq> None \<Longrightarrow> late_pie_changes pron = []"
  by (induction pron) (auto simp: late_pie_changes_def)

lemma grimm_changes_Nil [simp]: "grimm_changes [] = []"
  by (simp add: grimm_changes_def grimm_pass1_def)

lemma verner_changes_Nil [simp]: "verner_changes [] = []"
  by (simp add: verner_changes_def)

lemma proto_germanic_changes_Nil [simp]: "proto_germanic_changes [] = []"
  by (simp add: proto_germanic_changes_def)

lemma old_english_changes_Nil [simp]: "old_english_changes [] = []"
  by (simp add: old_english_changes_def)

lemma late_old_english_changes_Nil [simp]: "late_old_english_changes [] = []"
  by (simp add: late_old_english_changes_def)

lemma me_vowel_lengthening_Nil [simp]: "me_vowel_lengthening [] = Inr []"
  by (simp add: me_vowel_lengthening_def)

lemma me_vowel_shortening_Nil [simp]: "me_vowel_shortening [] = Inr []"
  by (simp add: me_vowel_shortening_def)

lemma search_two_syll_Nil: "\<not> search two_syll_pattern []"
  by code_simp

lemma me_second_lengthening_Nil [simp]: "me_second_lengthening [] = Inr []"
  by (simp add: me_second_lengthening_def search_two_syll_Nil)

lemma me_metathesis_Nil [simp]: "me_metathesis [] = []"
  by (simp add: me_metathesis_def)

lemma me_diphthongization_Nil [simp]: "me_diphthongization [] = Inr []"
  by (simp add: me_diphthongization_def me_dip_loop.simps [of "[]"])

lemma middle_english_changes_Nil [simp]: "middle_english_changes [] = Inr []"
  by (simp add: middle_english_changes_def)

lemma early_modern_english_changes_Nil [simp]: "early_modern_english_changes [] = []"
  by (simp add: early_modern_english_changes_def)

section \<open>The word assembler on an empty Middle English pronunciation\<close>

lemma build_entry_me_Inl:
  "me_of (split pron_text) = Inl e \<Longrightarrow> build_entry tb fdiv (tok, pron_text, m) = Inl e"
  by (simp add: build_entry_def me_of_def Let_def)

lemma build_entry_me_Nil:
  "me_of (split pron_text) = Inr [] \<Longrightarrow> build_entry tb fdiv (tok, pron_text, m) = Inl IndexError"
  by (simp add: build_entry_def me_of_def Let_def)

lemma py_index_last: "xs \<noteq> [] \<Longrightarrow> py_index xs (- 1) = Inr (last xs)"
  by (cases xs rule: rev_cases) (simp_all add: py_index_def Let_def)

lemma py_index_0: "py_index (x # xs) 0 = Inr x"
  by (simp add: py_index_def Let_def)

lemma build_entry_no_candidate:
  assumes "me_of (split pron_text) = Inr me_pron" and "me_pron \<noteq> []"
    and "generate_spelling (spelling_model tb) fdiv (early_modern_english_changes me_pron)
           (last me_pron \<in> set vowels) = Inr []"
  shows "build_entry tb fdiv (tok, pron_text, m) = Inl IndexError"
  using assms by (simp add: build_entry_def me_of_def Let_def py_index_last)

lemma me_of_deleted:
  assumes "\<forall>p \<in> set pie_pron. dict_h_deletion p \<noteq> None"
  shows "me_of pie_pron = Inr []"
  by (simp add: me_of_def late_pie_changes_all_deleted [OF assms])

lemma generate_entry_known_root:
  assumes "tok \<noteq> []" and "map_of (pie_roots tb) tok = Some (pron_text, m)"
  shows "generate_entry tb choice fdiv (Some tok) None =
           ebind (build_entry tb fdiv (tok, pron_text, m)) (\<lambda>entry. Inr (Some entry))"
  using assms
  by (simp add: generate_entry_def resolve_token_def resolve_suffix_def combine_def lookup_def)

text \<open>
  C10.  When every phone of the combined sequence of a root is one that Late PIE deletes
  (a laryngeal), the Middle English pronunciation is the empty sequence and
  \<open>generate_entry\<close> raises \<open>IndexError\<close> where it reads the last Middle English phone,
  instead of returning an entry.
\<close>

theorem generate_entry_empty_me:
  assumes "tok \<noteq> []" and "map_of (pie_roots tb) tok = Some (pron_text, m)"
    and "\<forall>p \<in> set (split pron_text). dict_h_deletion p \<noteq> None"
  shows "me_of (split pron_text) = Inr []
         \<and> generate_entry tb choice fdiv (Some tok) None = Inl IndexError"
  using me_of_deleted [OF assms(3)]
  by (simp add: generate_entry_known_root [OF assms(1,2)] build_entry_me_Nil)

theorem generate_entry_empty_me_witness:
  "me_of (split ''h1 h2'') = Inr []
   \<and> generate_entry tb_laryngeal hd fl_div (Some ''H'') None = Inl IndexError"
  by (rule generate_entry_empty_me)
     (simp_all add: tb_laryngeal_def split_def is_space_def dict_h_deletion_def)

section \<open>Properties of the spelling generator\<close>

lemma and_also_simps [simp]:
  "and_also (Inl e) b = Inl e"
  "and_also (Inr True) b = b"
  "and_also (Inr False) b = Inr False"
  by (simp_all add: and_also_def)

lemma py_index_m2_short: "length xs < 2 \<Longrightarrow> py_index xs (- 2) = Inl IndexError"
  by (simp add: py_index_def Let_def)

lemma py_index_m2: "2 \<le> length xs \<Longrightarrow> py_index xs (- 2) = Inr (xs ! (length xs - 2))"
  by (simp add: py_index_def Let_def nat_diff_distrib' int_ops)

lemma sorted_rev_key_Nil [simp]: "sorted_rev_key k [] = []"
  by (simp add: sorted_rev_key_def)

subsection \<open>The touch-ups\<close>

lemma insert_silent_e_Nil: "insert_silent_e [] = Inl IndexError"
  by (simp add: insert_silent_e_def)

lemma insert_silent_e_one:
  "insert_silent_e [c] = (if c \<in> set ''wrlmn'' then Inl IndexError else Inr [c])"
  by (simp add: insert_silent_e_def py_index_last py_index_m2_short)

lemma silent_e_generic:
  assumes "2 \<le> length s"
  shows "ebind
       (and_also (ebind (py_index s (- 1)) (\<lambda>c. Inr (P c)))
                 (ebind (py_index s (- 2)) (\<lambda>c. Inr (Q c))))
       (\<lambda>cond. if cond then ebind (py_index s (- 1)) (\<lambda>c. Inr (butlast s @ ''e'' @ [c]))
                else Inr s)
     = Inr (if P (last s) \<and> Q (s ! (length s - 2)) then butlast s @ ''e'' @ [last s] else s)"
proof -
  from assms have ne: "s \<noteq> []" by auto
  show ?thesis
    unfolding py_index_last [OF ne] py_index_m2 [OF assms]
    by (cases "P (last s)"; cases "Q (s ! (length s - 2))") simp_all
qed

lemma insert_silent_e_long:
  "2 \<le> length s \<Longrightarrow>
     insert_silent_e s =
       Inr (if last s \<in> set ''wrlmn'' \<and> s ! (length s - 2) \<notin> set ''aeiouy''
            then butlast s @ ''e'' @ [last s] else s)"
  unfolding insert_silent_e_def by (rule silent_e_generic)

lemma append_final_e_eq:
  "s \<noteq> [] \<Longrightarrow>
     append_final_e s final_e = Inr (if final_e \<and> last s \<noteq> CHR ''e'' then s @ ''e'' else s)"
  by (cases final_e) (simp_all add: append_final_e_def py_index_last)

text \<open>The two touch-ups on a raw spelling of at least two letters.\<close>

lemma touch_up_long:
  assumes "2 \<le> length s"
  shows "touch_up s final_e =
     Inr (let s' = (if last s \<in> set ''wrlmn'' \<and> s ! (length s - 2) \<notin> set ''aeiouy''
                    then butlast s @ ''e'' @ [last s] else s)
          in if final_e \<and> last s' \<noteq> CHR ''e'' then s' @ ''e'' else s')"
proof -
  from assms have "s \<noteq> []" by auto
  then show ?thesis
    unfolding touch_up_def insert_silent_e_long [OF assms]
    by (simp add: append_final_e_eq Let_def)
qed

lemma touch_up_Inr:
  assumes "touch_up s final_e = Inr s'"
  shows "s \<noteq> [] \<and> (2 \<le> length s \<or> last s \<notin> set ''wrlmn'')"
proof (cases s)
  case Nil
  with assms show ?thesis by (simp add: touch_up_def insert_silent_e_Nil)
next
  case (Cons c cs)
  show ?thesis
  proof (cases cs)
    case Nil
    with Cons assms show ?thesis
      by (simp add: touch_up_def insert_silent_e_one split: if_splits)
  next
    case (Cons d ds)
    with \<open>s = c # cs\<close> show ?thesis by simp
  qed
qed

subsection \<open>The loop over the partitions\<close>

lemma spellings_loop_none_covered:
  "\<forall>bp \<in> set combos. not_covered model bp \<Longrightarrow>
     spellings_loop model fdiv final_e combos acc = Inr acc"
  by (induction combos arbitrary: acc) simp_all

lemma generate_spelling_none_covered:
  assumes "\<forall>bp \<in> set (pron_breaker (normalize pron)). not_covered model bp"
  shows "generate_spelling model fdiv pron final_e = Inr []"
  by (simp add: generate_spelling_def Let_def spellings_loop_none_covered [OF assms])

lemma spellings_loop_Inr:
  "spellings_loop model fdiv final_e combos acc = Inr sp \<Longrightarrow> bp \<in> set combos \<Longrightarrow>
     \<not> not_covered model bp \<Longrightarrow> \<exists>e. spell_partition model fdiv final_e bp = Inr e"
proof (induction combos arbitrary: acc)
  case Nil
  then show ?case by simp
next
  case (Cons c combos)
  show ?case
  proof (cases "bp = c")
    case True
    with Cons.prems show ?thesis
      by (cases "spell_partition model fdiv final_e c") simp_all
  next
    case False
    with Cons.prems have mem: "bp \<in> set combos" by simp
    show ?thesis
    proof (cases "not_covered model c")
      case True
      with Cons.prems have "spellings_loop model fdiv final_e combos acc = Inr sp" by simp
      from Cons.IH [OF this mem Cons.prems(3)] show ?thesis .
    next
      case nc: False
      show ?thesis
      proof (cases "spell_partition model fdiv final_e c")
        case (Inl e)
        with nc Cons.prems show ?thesis by simp
      next
        case (Inr s)
        with nc Cons.prems
        have "spellings_loop model fdiv final_e combos (acc @ [s]) = Inr sp" by simp
        from Cons.IH [OF this mem Cons.prems(3)] show ?thesis .
      qed
    qed
  qed
qed

lemma spell_partition_Inr:
  assumes "spell_partition model fdiv final_e bp = Inr e"
  shows "\<exists>ps s. phone_seqs_loop model bp [] = Inr ps \<and> touch_up (raw_spelling ps) final_e = Inr s"
proof (cases "phone_seqs_loop model bp []")
  case (Inl x)
  with assms show ?thesis by (simp add: spell_partition_def)
next
  case (Inr ps)
  with assms show ?thesis
    by (cases "touch_up (raw_spelling ps) final_e") (simp_all add: spell_partition_def)
qed

lemma generate_spelling_Inr:
  assumes "generate_spelling model fdiv pron final_e = Inr r"
  shows "\<exists>sp. spellings_loop model fdiv final_e (pron_breaker (normalize pron)) [] = Inr sp"
  using assms
  by (cases "spellings_loop model fdiv final_e (pron_breaker (normalize pron)) []")
     (simp_all add: generate_spelling_def Let_def)

lemma normalize_n: "normalize [''n''] = [''n'']"
  by code_simp

lemma phone_seqs_n: "phone_seqs_loop model_n [[''n'']] [] = Inr [(''n'', 1)]"
  by code_simp

lemma generate_spelling_n: "generate_spelling model_n fdiv [''n''] final_e = Inl IndexError"
proof -
  have sp: "spell_partition model_n fdiv final_e [[''n'']] = Inl IndexError"
    unfolding spell_partition_def phone_seqs_n
    by (simp add: raw_spelling_def touch_up_def insert_silent_e_one)
  have nc: "\<not> not_covered model_n [[''n'']]"
    by (simp add: not_covered_def model_n_def)
  show ?thesis
    unfolding generate_spelling_def Let_def normalize_n pron_breaker_1
    by (simp add: nc sp)
qed

text \<open>
  C9.  \<open>generate_spelling\<close> raises \<open>IndexError\<close> on an accepted partition whose raw
  spelling is the single letter \<open>n\<close>: the silent-e touch-up reads the letter before the
  last one.  It returns normally only when the raw spelling of every accepted partition
  is non-empty and either has at least two letters or does not end in one of
  \<open>w, r, l, m, n\<close>.
\<close>

theorem generate_spelling_single_sonorant:
  "generate_spelling model_n fdiv [''n''] final_e = Inl IndexError
   \<and> (generate_spelling model fdiv pron final_e = Inr r \<longrightarrow>
        (\<forall>bp \<in> set (pron_breaker (normalize pron)). \<not> not_covered model bp \<longrightarrow>
           (\<exists>ps. phone_seqs_loop model bp [] = Inr ps \<and> raw_spelling ps \<noteq> []
                 \<and> (2 \<le> length (raw_spelling ps) \<or> last (raw_spelling ps) \<notin> set ''wrlmn''))))"
proof (intro conjI impI ballI)
  show "generate_spelling model_n fdiv [''n''] final_e = Inl IndexError"
    by (rule generate_spelling_n)
next
  fix bp
  assume r: "generate_spelling model fdiv pron final_e = Inr r"
    and bp: "bp \<in> set (pron_breaker (normalize pron))" and cov: "\<not> not_covered model bp"
  from generate_spelling_Inr [OF r] obtain sp where
    "spellings_loop model fdiv final_e (pron_breaker (normalize pron)) [] = Inr sp" ..
  from spellings_loop_Inr [OF this bp cov] obtain e where
    "spell_partition model fdiv final_e bp = Inr e" ..
  from spell_partition_Inr [OF this] obtain ps s where
    ps: "phone_seqs_loop model bp [] = Inr ps" and "touch_up (raw_spelling ps) final_e = Inr s"
    by blast
  from touch_up_Inr [OF this(2)] ps
  show "\<exists>ps. phone_seqs_loop model bp [] = Inr ps \<and> raw_spelling ps \<noteq> []
              \<and> (2 \<le> length (raw_spelling ps) \<or> last (raw_spelling ps) \<notin> set ''wrlmn'')"
    by blast
qed

text \<open>
  C7.  The claim gives the two touch-ups for every raw spelling of an accepted partition.
  For the raw spelling \<open>n\<close> (the partition \<open>[n]\<close> under a model that spells \<open>n\<close> as \<open>n\<close>)
  the code applies neither: it raises \<open>IndexError\<close> on \<open>new_spelling[-2]\<close>.  On raw
  spellings of two letters or more the touch-ups are as the claim says
  (\<open>touch_up_long\<close>).
\<close>

theorem touch_up_single_sonorant:
  "touch_up ''n'' final_e = Inl IndexError \<and> raw_spelling [(''n'', 1)] = ''n''
   \<and> phone_seqs_loop model_n [[''n'']] [] = Inr [(''n'', 1)]"
proof (intro conjI)
  show "touch_up ''n'' final_e = Inl IndexError"
    by (simp add: touch_up_def insert_silent_e_one)
  show "raw_spelling [(''n'', 1)] = ''n''"
    by (simp add: raw_spelling_def)
  show "phone_seqs_loop model_n [[''n'']] [] = Inr [(''n'', 1)]"
    by (rule phone_seqs_n)
qed

lemma normalize_o: "normalize [''o''] = [''o'']"
  by code_simp

lemma phone_seqs_o: "phone_seqs_loop model_o [[''o'']] [] = Inr [(''o'', 5)]"
  by code_simp

lemma sorted_rev_key_one [simp]: "sorted_rev_key k [x] = [x]"
  by (simp add: sorted_rev_key_def)

lemma generate_spelling_o: "generate_spelling model_o fdiv [''o''] False = Inr [''o'']"
proof -
  have sp: "spell_partition model_o fdiv False [[''o'']] =
              Inr (''o'', score fdiv [(''o'', 5)] [[''o'']])"
    unfolding spell_partition_def phone_seqs_o
    by (simp add: raw_spelling_def touch_up_def insert_silent_e_one append_final_e_eq)
  have nc: "\<not> not_covered model_o [[''o'']]"
    by (simp add: not_covered_def model_o_def)
  show ?thesis
    unfolding generate_spelling_def Let_def normalize_o pron_breaker_1
    by (simp add: nc sp)
qed

theorem generate_spelling_single_sonorant_witness:
  "generate_spelling model_o fl_div [''o''] False = Inr [''o'']
   \<and> (\<exists>ps. phone_seqs_loop model_o [[''o'']] [] = Inr ps \<and> raw_spelling ps \<noteq> []
          \<and> (2 \<le> length (raw_spelling ps) \<or> last (raw_spelling ps) \<notin> set ''wrlmn''))"
proof -
  have mem: "[[''o'']] \<in> set (pron_breaker (normalize [''o'']))"
    by (simp add: normalize_o pron_breaker_1)
  have cov: "\<not> not_covered model_o [[''o'']]"
    by (simp add: not_covered_def model_o_def)
  show ?thesis
    by (rule conjI [OF generate_spelling_o
          generate_spelling_single_sonorant
            [THEN conjunct2, rule_format, OF generate_spelling_o mem cov]])
qed

subsection \<open>One phone through the pipeline\<close>

lemma late_pie_m: "late_pie_changes [''m''] = [''m'']" by code_simp
lemma grimm_m: "grimm_changes [''m''] = [''m'']" by code_simp
lemma verner_m: "verner_changes [''m''] = [''m'']" by code_simp
lemma proto_germanic_m: "proto_germanic_changes [''m''] = [''m'']" by code_simp
lemma old_english_m: "old_english_changes [''m''] = [''m'']" by code_simp
lemma late_old_english_m: "late_old_english_changes [''m''] = [''m'']" by code_simp
lemma middle_english_m: "middle_english_changes [''m''] = Inr [''m'']" by code_simp
lemma early_modern_english_m: "early_modern_english_changes [''m''] = [''m'']" by code_simp

lemma split_m: "split ''m'' = [''m'']"
  by (simp add: split_def is_space_def)

lemma me_of_m: "me_of [''m''] = Inr [''m'']"
  unfolding me_of_def late_pie_m grimm_m verner_m proto_germanic_m old_english_m
    late_old_english_m
  by (rule middle_english_m)

lemma normalize_m: "normalize [''m''] = [''m'']"
  by code_simp

text \<open>
  C3, as the code has it.  When no partition of the normalized phone sequence is covered
  by the model, \<open>generate_spelling\<close> returns the empty list.  \<open>generate_entry\<close> takes the
  first candidate of that list without a test: when the Middle English pronunciation is
  not empty and no partition of the Early Modern English pronunciation is covered, it
  raises \<open>IndexError\<close> and builds no entry.
\<close>

theorem no_coverage_no_entry:
  "((\<forall>bp \<in> set (pron_breaker (normalize pron)). not_covered model bp) \<longrightarrow>
      generate_spelling model fdiv pron final_e = Inr [])
   \<and> (me_of (split pron_text) = Inr me_pron \<and> me_pron \<noteq> []
        \<and> (\<forall>bp \<in> set (pron_breaker (normalize (early_modern_english_changes me_pron))).
              not_covered (spelling_model tb) bp) \<longrightarrow>
      build_entry tb fdiv (tok, pron_text, m) = Inl IndexError)"
proof (intro conjI impI)
  assume "\<forall>bp \<in> set (pron_breaker (normalize pron)). not_covered model bp"
  then show "generate_spelling model fdiv pron final_e = Inr []"
    by (rule generate_spelling_none_covered)
next
  assume a: "me_of (split pron_text) = Inr me_pron \<and> me_pron \<noteq> []
        \<and> (\<forall>bp \<in> set (pron_breaker (normalize (early_modern_english_changes me_pron))).
              not_covered (spelling_model tb) bp)"
  then have "generate_spelling (spelling_model tb) fdiv (early_modern_english_changes me_pron)
               (last me_pron \<in> set vowels) = Inr []"
    by (intro generate_spelling_none_covered) simp
  with a show "build_entry tb fdiv (tok, pron_text, m) = Inl IndexError"
    by (intro build_entry_no_candidate [where me_pron = me_pron]) simp_all
qed

lemma none_covered_m:
  "\<forall>bp \<in> set (pron_breaker (normalize (early_modern_english_changes [''m'']))).
     not_covered (spelling_model tb_no_spelling) bp"
  by (simp add: early_modern_english_m normalize_m pron_breaker_1 not_covered_def
        tb_no_spelling_def)

theorem no_coverage_no_entry_witness:
  "generate_spelling Map.empty fl_div [''m''] False = Inr []
   \<and> build_entry tb_no_spelling fl_div (''M'', ''m'', ''measure'') = Inl IndexError"
proof -
  have 1: "\<forall>bp \<in> set (pron_breaker (normalize [''m''])). not_covered Map.empty bp"
    by (simp add: normalize_m pron_breaker_1 not_covered_def)
  have 2: "me_of (split ''m'') = Inr [''m''] \<and> [''m''] \<noteq> []
        \<and> (\<forall>bp \<in> set (pron_breaker (normalize (early_modern_english_changes [''m'']))).
              not_covered (spelling_model tb_no_spelling) bp)"
    using none_covered_m by (simp add: split_m me_of_m)
  show ?thesis
    by (rule conjI [OF no_coverage_no_entry [THEN conjunct1, THEN mp, OF 1]
                       no_coverage_no_entry [THEN conjunct2, THEN mp, OF 2]])
qed

text \<open>
  C3, as stated, has the caller treat the empty candidate list as a case of its own.  For
  the root \<open>m\<close> and an empty model the candidate list is empty and \<open>generate_entry\<close>
  raises \<open>IndexError\<close>.
\<close>

theorem generate_entry_first_candidate_counterexample:
  "generate_spelling (spelling_model tb_no_spelling) fl_div
      (early_modern_english_changes [''m'']) (last [''m''] \<in> set vowels) = Inr []
   \<and> me_of (split ''m'') = Inr [''m'']
   \<and> generate_entry tb_no_spelling hd fl_div (Some ''M'') None = Inl IndexError"
proof -
  have g: "generate_spelling (spelling_model tb_no_spelling) fl_div
      (early_modern_english_changes [''m'']) (last [''m''] \<in> set vowels) = Inr []"
    by (rule generate_spelling_none_covered [OF none_covered_m])
  have me: "me_of (split ''m'') = Inr [''m'']"
    by (simp add: split_m me_of_m)
  have b: "build_entry tb_no_spelling fl_div (''M'', ''m'', ''measure'') = Inl IndexError"
    by (rule build_entry_no_candidate [OF me _ g]) simp
  have "generate_entry tb_no_spelling hd fl_div (Some ''M'') None = Inl IndexError"
    by (subst generate_entry_known_root [where pron_text = "''m''" and m = "''measure''"])
       (simp_all add: tb_no_spelling_def b [unfolded tb_no_spelling_def])
  with g me show ?thesis by (intro conjI)
qed

section \<open>The ranking of the spellings\<close>

subsection \<open>Sorting in descending order\<close>

lemma count_list_insort_key:
  "count_list (insort_key k a xs) x = count_list (a # xs) x"
  by (induction xs) auto

lemma count_list_sort_key: "count_list (sort_key k xs) x = count_list xs x"
  by (induction xs) (simp_all add: count_list_insort_key)

lemma count_list_rev: "count_list (rev xs) x = count_list xs x"
  by (induction xs) simp_all

lemma count_list_sorted_rev_key: "count_list (sorted_rev_key k xs) x = count_list xs x"
  by (simp add: sorted_rev_key_def count_list_rev count_list_sort_key)

lemma length_sorted_rev_key [simp]: "length (sorted_rev_key k xs) = length xs"
  by (simp add: sorted_rev_key_def)

lemma set_sorted_rev_key [simp]: "set (sorted_rev_key k xs) = set xs"
  by (simp add: sorted_rev_key_def)

lemma sorted_rev_key_descending: "sorted (rev (map k (sorted_rev_key k xs)))"
  by (simp add: sorted_rev_key_def rev_map)

lemma sorted_last_max:
  "sorted (map f ys) \<Longrightarrow> x \<in> set ys \<Longrightarrow> f x \<le> f (last ys)"
proof (induction ys)
  case Nil
  then show ?case by simp
next
  case (Cons y ys)
  then show ?case by (cases ys) auto
qed

lemma hd_sorted_rev_key_max:
  assumes "x \<in> set xs"
  shows "k x \<le> k (hd (sorted_rev_key k xs))"
proof -
  from assms have ne: "sort_key k (rev xs) \<noteq> []"
    by (metis empty_iff list.set(1) set_rev set_sort)
  have "k x \<le> k (last (sort_key k (rev xs)))"
    by (rule sorted_last_max) (simp_all add: assms)
  with ne show ?thesis
    by (simp add: sorted_rev_key_def hd_rev)
qed

subsection \<open>The choice for one group\<close>

lemma py_index_0_Inr:
  assumes "py_index xs 0 = Inr t"
  shows "xs \<noteq> [] \<and> t = hd xs"
  using assms by (cases xs) (simp_all add: py_index_def)

lemma top_spelling_Inr:
  assumes "top_spelling model k = Inr t"
  shows "\<exists>d. model k = Some d \<and> is_top d t"
proof (cases "model k")
  case None
  with assms show ?thesis by (simp add: top_spelling_def)
next
  case (Some d)
  with assms have "py_index (sorted_rev_key snd d) 0 = Inr t"
    by (simp add: top_spelling_def)
  from py_index_0_Inr [OF this]
  have ne: "sorted_rev_key snd d \<noteq> []" and t: "t = hd (sorted_rev_key snd d)"
    by simp_all
  from ne have "hd (sorted_rev_key snd d) \<in> set (sorted_rev_key snd d)"
    by (rule hd_in_set)
  then have "t \<in> set d" by (simp add: t)
  moreover have "\<forall>x \<in> set d. snd x \<le> snd t"
    unfolding t by (intro ballI hd_sorted_rev_key_max)
  ultimately show ?thesis
    using Some by (simp add: is_top_def)
qed

lemma phone_seqs_loop_Inr:
  "phone_seqs_loop model bp acc = Inr ps \<Longrightarrow>
     \<exists>ts. ps = acc @ ts
        \<and> list_all2 (\<lambda>g t. \<exists>d. model (concat g) = Some d \<and> is_top d t) bp ts"
proof (induction bp arbitrary: acc)
  case Nil
  then show ?case by simp
next
  case (Cons g bp)
  from Cons.prems obtain t where t: "top_spelling model (concat g) = Inr t"
    and rest: "phone_seqs_loop model bp (acc @ [t]) = Inr ps"
    by (cases "top_spelling model (concat g)") simp_all
  from Cons.IH [OF rest] obtain ts where
    ts: "ps = (acc @ [t]) @ ts"
        "list_all2 (\<lambda>g t. \<exists>d. model (concat g) = Some d \<and> is_top d t) bp ts"
    by blast
  from top_spelling_Inr [OF t] ts(2)
  have "list_all2 (\<lambda>g t. \<exists>d. model (concat g) = Some d \<and> is_top d t) (g # bp) (t # ts)"
    by simp
  moreover have "ps = acc @ (t # ts)" using ts(1) by simp
  ultimately show ?case by blast
qed

subsection \<open>One partition, all partitions\<close>

lemma spell_partition_result:
  assumes "spell_partition model fdiv final_e bp = Inr e"
  shows "partition_result model fdiv final_e bp e"
proof -
  from assms obtain ps where ps: "phone_seqs_loop model bp [] = Inr ps"
    by (cases "phone_seqs_loop model bp []") (simp_all add: spell_partition_def)
  with assms obtain s where s: "touch_up (raw_spelling ps) final_e = Inr s"
    by (cases "touch_up (raw_spelling ps) final_e") (simp_all add: spell_partition_def)
  from assms ps s have e: "e = (s, score fdiv ps bp)"
    by (simp add: spell_partition_def)
  from phone_seqs_loop_Inr [OF ps]
  have "list_all2 (\<lambda>g t. \<exists>d. model (concat g) = Some d \<and> is_top d t) bp ps"
    by simp
  with s e show ?thesis
    unfolding partition_result_def raw_spelling_def score_def
    by (intro exI [of _ ps]) simp
qed

lemma spellings_loop_results:
  "spellings_loop model fdiv final_e combos acc = Inr sp \<Longrightarrow>
     \<exists>ts. sp = acc @ ts
        \<and> list_all2 (partition_result model fdiv final_e)
             (filter (\<lambda>bp. \<not> not_covered model bp) combos) ts"
proof (induction combos arbitrary: acc)
  case Nil
  then show ?case by simp
next
  case (Cons c combos)
  show ?case
  proof (cases "not_covered model c")
    case True
    with Cons.prems have "spellings_loop model fdiv final_e combos acc = Inr sp" by simp
    from Cons.IH [OF this] True show ?thesis by simp
  next
    case False
    with Cons.prems obtain e where e: "spell_partition model fdiv final_e c = Inr e"
      and rest: "spellings_loop model fdiv final_e combos (acc @ [e]) = Inr sp"
      by (cases "spell_partition model fdiv final_e c") simp_all
    from Cons.IH [OF rest] obtain ts where
      ts: "sp = (acc @ [e]) @ ts"
          "list_all2 (partition_result model fdiv final_e)
             (filter (\<lambda>bp. \<not> not_covered model bp) combos) ts"
      by blast
    from spell_partition_result [OF e] ts(2) False
    have "list_all2 (partition_result model fdiv final_e)
            (filter (\<lambda>bp. \<not> not_covered model bp) (c # combos)) (e # ts)"
      by simp
    moreover have "sp = acc @ (e # ts)" using ts(1) by simp
    ultimately show ?thesis by blast
  qed
qed

text \<open>
  C6.  When \<open>generate_spelling\<close> returns, there is one scored spelling for each accepted
  partition, in the order of the enumeration: for each group the chosen letter sequence
  is recorded for the group's phone text with a count that no other recorded count
  exceeds, the spelling is the touched-up concatenation of the chosen sequences, and the
  score is the sum of the chosen counts divided by the number of groups.  The result is
  the first five spellings of that list sorted by descending score; sorting keeps every
  entry as often as it occurs, so equal strings of different partitions are not
  collapsed, and the result has five entries or as many as there are accepted
  partitions.
\<close>

theorem generate_spelling_ranking:
  assumes "generate_spelling model fdiv pron final_e = Inr r"
  shows "\<exists>sp. list_all2 (partition_result model fdiv final_e) (accepted model pron) sp
           \<and> r = map fst (take 5 (sorted_rev_key snd sp))
           \<and> sorted (rev (map snd (sorted_rev_key snd sp)))
           \<and> (\<forall>e. count_list (sorted_rev_key snd sp) e = count_list sp e)
           \<and> length r = min 5 (length (accepted model pron))"
proof -
  from assms obtain sp where
    sp: "spellings_loop model fdiv final_e (pron_breaker (normalize pron)) [] = Inr sp"
    by (cases "spellings_loop model fdiv final_e (pron_breaker (normalize pron)) []")
       (simp_all add: generate_spelling_def Let_def)
  with assms have r: "r = map fst (take 5 (sorted_rev_key snd sp))"
    by (simp add: generate_spelling_def Let_def)
  from spellings_loop_results [OF sp]
  have all: "list_all2 (partition_result model fdiv final_e) (accepted model pron) sp"
    by (simp add: accepted_def)
  then have "length sp = length (accepted model pron)"
    by (simp add: list_all2_lengthD)
  then have "length r = min 5 (length (accepted model pron))"
    by (simp add: r min.commute)
  with all r show ?thesis
    by (intro exI [of _ sp]) (simp add: sorted_rev_key_descending count_list_sorted_rev_key)
qed

lemma normalize_not: "normalize [''n'', ''o'', ''t''] = [''n'', ''o'', ''t'']"
  by code_simp

lemma phone_seqs_n_o_t:
  "phone_seqs_loop model_knot [[''n''], [''o''], [''t'']] [] = Inr [(''nn'', 3), (''o'', 5), (''t'', 4)]"
  by code_simp

lemma phone_seqs_no_t:
  "phone_seqs_loop model_knot [[''n'', ''o''], [''t'']] [] = Inr [(''kno'', 10), (''t'', 4)]"
  by code_simp

lemma touch_up_nnot: "touch_up ''nnot'' False = Inr ''nnot''"
  by (subst touch_up_long) simp_all

lemma touch_up_knot: "touch_up ''knot'' False = Inr ''knot''"
  by (subst touch_up_long) simp_all

lemma spell_n_o_t:
  "spell_partition model_knot fl_div False [[''n''], [''o''], [''t'']] = Inr (''nnot'', 4)"
  unfolding spell_partition_def phone_seqs_n_o_t
  by (simp add: raw_spelling_def touch_up_nnot score_def fl_div_def)

lemma spell_no_t:
  "spell_partition model_knot fl_div False [[''n'', ''o''], [''t'']] = Inr (''knot'', 7)"
  unfolding spell_partition_def phone_seqs_no_t
  by (simp add: raw_spelling_def touch_up_knot score_def fl_div_def)

lemma covered_knot:
  "not_covered model_knot [[''n''], [''o'', ''t'']]"
  "\<not> not_covered model_knot [[''n''], [''o''], [''t'']]"
  "\<not> not_covered model_knot [[''n'', ''o''], [''t'']]"
  by (simp_all add: not_covered_def model_knot_def)

lemma spellings_knot:
  "spellings_loop model_knot fl_div False (pron_breaker [''n'', ''o'', ''t'']) [] =
     Inr [(''nnot'', 4), (''nnot'', 4), (''knot'', 7), (''knot'', 7)]"
  unfolding pron_breaker_3
  by (simp add: covered_knot spell_n_o_t spell_no_t)

lemma sorted_knot:
  "sorted_rev_key snd [(''nnot'', 4 :: rat), (''nnot'', 4), (''knot'', 7), (''knot'', 7)] =
     [(''knot'', 7), (''knot'', 7), (''nnot'', 4), (''nnot'', 4)]"
  by (simp add: sorted_rev_key_def)

lemma generate_spelling_knot:
  "generate_spelling model_knot fl_div [''n'', ''o'', ''t''] False =
     Inr [''knot'', ''knot'', ''nnot'', ''nnot'']"
  unfolding generate_spelling_def Let_def normalize_not spellings_knot
  by (simp add: sorted_knot)

theorem generate_spelling_ranking_witness:
  "generate_spelling model_knot fl_div [''n'', ''o'', ''t''] False =
     Inr [''knot'', ''knot'', ''nnot'', ''nnot'']
   \<and> (\<exists>sp. list_all2 (partition_result model_knot fl_div False)
               (accepted model_knot [''n'', ''o'', ''t'']) sp
           \<and> [''knot'', ''knot'', ''nnot'', ''nnot''] = map fst (take 5 (sorted_rev_key snd sp))
           \<and> sorted (rev (map snd (sorted_rev_key snd sp)))
           \<and> (\<forall>e. count_list (sorted_rev_key snd sp) e = count_list sp e)
           \<and> length [''knot'', ''knot'', ''nnot'', ''nnot''] =
               min 5 (length (accepted model_knot [''n'', ''o'', ''t''])))"
  by (rule conjI [OF generate_spelling_knot generate_spelling_ranking [OF generate_spelling_knot]])

end
